theory Spec2Isabelle
  imports Complex_Main "HOL-Library.Word"
begin

section \<open>JavaScript strings and the regular expressions of the engine\<close>

text \<open>
  A JavaScript string is a sequence of UTF-16 code units; \<open>text.length\<close> counts code units.
  String literals of the source that are plain ASCII are written with \<open>ascii\<close>.
\<close>

type_synonym code_unit = "16 word"
type_synonym jsstring = "code_unit list"

definition ascii :: "string \<Rightarrow> jsstring" where
  "ascii s = map (\<lambda>c. of_nat (of_char c)) s"

text \<open>The character classes \<open>\w\<close>, \<open>\d\<close>, \<open>[A-Z]\<close> and \<open>\s\<close> (WhiteSpace and LineTerminator
  of ECMAScript, which is also what \<open>trim\<close> strips).\<close>

definition isWordChar :: "code_unit \<Rightarrow> bool" where
  "isWordChar c = ((0x41 \<le> c \<and> c \<le> 0x5A) \<or> (0x61 \<le> c \<and> c \<le> 0x7A) \<or> (0x30 \<le> c \<and> c \<le> 0x39) \<or> c = 0x5F)"

definition isDigit :: "code_unit \<Rightarrow> bool" where
  "isDigit c = (0x30 \<le> c \<and> c \<le> 0x39)"

definition isUpperAZ :: "code_unit \<Rightarrow> bool" where
  "isUpperAZ c = (0x41 \<le> c \<and> c \<le> 0x5A)"

definition isWhiteSpace :: "code_unit \<Rightarrow> bool" where
  "isWhiteSpace c = ((0x09 \<le> c \<and> c \<le> 0x0D) \<or> c = 0x20 \<or> c = 0xA0 \<or> c = 0x1680
     \<or> (0x2000 \<le> c \<and> c \<le> 0x200A) \<or> c = 0x2028 \<or> c = 0x2029 \<or> c = 0x202F
     \<or> c = 0x205F \<or> c = 0x3000 \<or> c = 0xFEFF)"

text \<open>
  Canonicalize of a regular expression with the \<open>i\<close> flag and without the \<open>u\<close> flag: a code
  unit is compared through its upper case, and a code unit from 128 on never canonicalizes to
  an ASCII one. Every literal of the patterns below is ASCII, so only the ASCII part of the
  mapping decides a comparison; the other code units are left as they are.
\<close>

definition canonicalize :: "code_unit \<Rightarrow> code_unit" where
  "canonicalize c = (if 0x61 \<le> c \<and> c \<le> 0x7A then c - 0x20 else c)"

text \<open>\<open>matchLiteral p prev s\<close> matches the literal \<open>p\<close> at the start of \<open>s\<close>, ignoring case,
  and returns the last code unit before the end of the match together with the rest.\<close>

fun matchLiteral :: "jsstring \<Rightarrow> code_unit option \<Rightarrow> jsstring \<Rightarrow> (code_unit option \<times> jsstring) option" where
  "matchLiteral [] prev s = Some (prev, s)"
| "matchLiteral (p # ps) prev [] = None"
| "matchLiteral (p # ps) prev (c # cs) =
     (if canonicalize c = canonicalize p then matchLiteral ps (Some c) cs else None)"

text \<open>The assertion \<open>\b\<close> between the code unit \<open>prev\<close> (none at the start) and the rest \<open>s\<close>.\<close>

definition wordBoundary :: "code_unit option \<Rightarrow> jsstring \<Rightarrow> bool" where
  "wordBoundary prev s =
     ((case prev of None \<Rightarrow> False | Some c \<Rightarrow> isWordChar c)
      \<noteq> (case s of [] \<Rightarrow> False | c # _ \<Rightarrow> isWordChar c))"

text \<open>\<open>\b(p1|p2|...)\b\<close> tried at one position: some alternative matches between two word
  boundaries (the matcher backtracks over the alternatives).\<close>

definition matchWordsHere :: "jsstring list \<Rightarrow> code_unit option \<Rightarrow> jsstring \<Rightarrow> bool" where
  "matchWordsHere alts prev s =
     (wordBoundary prev s \<and>
      list_ex (\<lambda>p. case matchLiteral p prev s of
                      None \<Rightarrow> False
                    | Some (l, rest) \<Rightarrow> wordBoundary l rest) alts)"

text \<open>\<open>RegExp.prototype.test\<close> of a pattern without the \<open>g\<close> flag: the pattern is tried at every
  position from the left, the end of the string included.\<close>

fun searchFrom :: "(code_unit option \<Rightarrow> jsstring \<Rightarrow> bool) \<Rightarrow> code_unit option \<Rightarrow> jsstring \<Rightarrow> bool" where
  "searchFrom m prev [] = m prev []"
| "searchFrom m prev (c # cs) = (m prev (c # cs) \<or> searchFrom m (Some c) cs)"

definition testWords :: "string list \<Rightarrow> jsstring \<Rightarrow> bool" where
  "testWords alts s = searchFrom (matchWordsHere (map ascii alts)) None s"

text \<open>\<open>/\?/\<close>, \<open>/\d+/\<close> and the anchored \<open>/^(p1|p2|...)/i\<close>.\<close>

definition testQuestionMark :: "jsstring \<Rightarrow> bool" where
  "testQuestionMark s = (0x3F \<in> set s)"

definition testDigits :: "jsstring \<Rightarrow> bool" where
  "testDigits s = list_ex isDigit s"

definition testPrefix :: "string list \<Rightarrow> jsstring \<Rightarrow> bool" where
  "testPrefix alts s = list_ex (\<lambda>p. matchLiteral (ascii p) None s \<noteq> None) alts"

text \<open>
  \<open>/[\u{1F300}-\u{1F9FF}]/u\<close>: with the \<open>u\<close> flag a surrogate pair is read as one code point.
  The code points of the class are all outside the basic plane, so a match is a high
  surrogate followed by a low surrogate whose code point lies in the range.
\<close>

definition codePoint :: "code_unit \<Rightarrow> code_unit \<Rightarrow> nat" where
  "codePoint h l = 0x10000 + (unat h - 0xD800) * 0x400 + (unat l - 0xDC00)"

fun testEmoji :: "jsstring \<Rightarrow> bool" where
  "testEmoji (h # l # cs) =
     ((0xD800 \<le> h \<and> h \<le> 0xDBFF \<and> 0xDC00 \<le> l \<and> l \<le> 0xDFFF
        \<and> 0x1F300 \<le> codePoint h l \<and> codePoint h l \<le> 0x1F9FF)
      \<or> testEmoji (l # cs))"
| "testEmoji _ = False"

text \<open>\<open>String.prototype.split\<close> with a separator pattern \<open>c+\<close> for a character class \<open>c\<close>: the
  pieces between the maximal runs of separators, the empty pieces at both ends included.
  \<open>insep\<close> says that the code unit before was a separator.\<close>

fun splitRuns :: "(code_unit \<Rightarrow> bool) \<Rightarrow> bool \<Rightarrow> jsstring \<Rightarrow> jsstring \<Rightarrow> jsstring list" where
  "splitRuns sep insep cur [] = [cur]"
| "splitRuns sep insep cur (c # cs) =
     (if sep c then (if insep then splitRuns sep True cur cs else cur # splitRuns sep True [] cs)
      else splitRuns sep False (cur @ [c]) cs)"

definition splitOn :: "(code_unit \<Rightarrow> bool) \<Rightarrow> jsstring \<Rightarrow> jsstring list" where
  "splitOn sep s = splitRuns sep False [] s"

definition trim :: "jsstring \<Rightarrow> jsstring" where
  "trim s = rev (dropWhile isWhiteSpace (rev (dropWhile isWhiteSpace s)))"

definition includesQuestionMark :: "jsstring \<Rightarrow> bool" where
  "includesQuestionMark s = (0x3F \<in> set s)"

text \<open>The decimal text of an integer, as a template literal or \<open>+\<close> on a string prints it.\<close>

fun digitsOf :: "nat \<Rightarrow> jsstring" where
  "digitsOf n = (if n < 10 then [of_nat (48 + n)] else digitsOf (n div 10) @ [of_nat (48 + n mod 10)])"

definition numberToString :: "int \<Rightarrow> jsstring" where
  "numberToString i = (if i < 0 then 0x2D # digitsOf (nat (- i)) else digitsOf (nat i))"

section \<open>Numbers\<close>

text \<open>
  A JavaScript number is an IEEE 754 binary64 value. The finite ones are modelled by the
  rational they denote; \<open>binary64\<close> rounds a rational to the nearest double, ties to even
  (53 bits of significand, exponent not below -1022; every number of the engine is far
  below the overflow threshold). \<open>exponent x\<close> is the \<open>e\<close> with \<open>2^e \<le> |x| < 2^(e+1)\<close>, found from
  the binary lengths of numerator and denominator. The integer scores are kept as \<open>int\<close>.
\<close>

fun floor_log2 :: "nat \<Rightarrow> nat" where
  "floor_log2 n = (if n < 2 then 0 else Suc (floor_log2 (n div 2)))"

definition round_half_even :: "rat \<Rightarrow> int" where
  "round_half_even x =
     (let f = \<lfloor>x\<rfloor>; d = x - of_int f
      in if d < 1 / 2 then f else if 1 / 2 < d then f + 1 else if even f then f else f + 1)"

definition exponent :: "rat \<Rightarrow> int" where
  "exponent x =
     (let e0 = int (floor_log2 (nat (fst (quotient_of \<bar>x\<bar>)))) - int (floor_log2 (nat (snd (quotient_of \<bar>x\<bar>))))
      in if 2 powi e0 \<le> \<bar>x\<bar> then e0 else e0 - 1)"

definition binary64 :: "rat \<Rightarrow> rat" where
  "binary64 x =
     (if x = 0 then 0
      else let q = 2 powi (max (exponent x) (- 1022) - 52)
           in of_int (round_half_even (x / q)) * q)"

definition fadd :: "rat \<Rightarrow> rat \<Rightarrow> rat" where
  "fadd a b = binary64 (a + b)"

definition fmul :: "rat \<Rightarrow> rat \<Rightarrow> rat" where
  "fmul a b = binary64 (a * b)"

text \<open>The engine divides by \<open>Math.max(text.length, 1)\<close> and by the number of predictions,
  which the model tests for 0 before it divides.\<close>

definition fdiv :: "rat \<Rightarrow> rat \<Rightarrow> rat" where
  "fdiv a b = binary64 (a / b)"

text \<open>The literals \<open>0.5\<close>, \<open>0.2\<close> and \<open>0.15\<close> denote the doubles nearest to them.\<close>

definition lit_0_5 :: rat where
  "lit_0_5 = 1 / 2"

definition lit_0_2 :: rat where
  "lit_0_2 = 3602879701896397 / 18014398509481984"

definition lit_0_15 :: rat where
  "lit_0_15 = 5404319552844595 / 36028797018963968"

text \<open>\<open>Math.round\<close> of a finite number: the nearest integer, a tie towards plus infinity.\<close>

definition Math_round :: "rat \<Rightarrow> int" where
  "Math_round x = \<lfloor>x + 1 / 2\<rfloor>"

text \<open>What \<open>Math.max\<close> and the aggregation yield: an integer, minus infinity or \<open>NaN\<close>.\<close>

datatype number = Num int | NegInfinity | NaN

fun greaterThan' :: "number \<Rightarrow> int \<Rightarrow> bool" where
  "greaterThan' (Num a) k = (k < a)"
| "greaterThan' NegInfinity k = False"
| "greaterThan' NaN k = False"

section \<open>The analysis result\<close>

record factor =
  signal :: jsstring
  impact :: jsstring
  reason :: jsstring

text \<open>A warning has the key \<open>risk\<close> only when it comes from a muted-risk pattern.\<close>

record warning =
  wtype :: jsstring
  risk :: "jsstring option"
  message :: jsstring

record recommendation =
  priority :: jsstring
  action :: jsstring
  algorithmBenefit :: jsstring
  example :: jsstring

text \<open>\<open>scores\<close> starts as the empty object, so each of its keys may be absent.\<close>

record scores_t =
  contentQuality :: "int option"
  format :: "int option"
  safety :: "int option"
  overall :: "number option"

text \<open>\<open>predictions\<close> is an object from signal names to scores, in the order of insertion.\<close>

type_synonym predictions_t = "(jsstring \<times> int) list"

text \<open>The result of \<open>analyzePost\<close>; its key \<open>text\<close> is the field \<open>rtext\<close>.\<close>

record results =
  rtext :: jsstring
  charCount :: nat
  wordCount :: nat
  scores :: scores_t
  predictions :: predictions_t
  factors :: "factor list"
  recommendations :: "recommendation list"
  warnings :: "warning list"

text \<open>Only \<open>mediaType\<close> of the options is read by the analysis; \<open>None\<close> is the absent key.\<close>

record options =
  mediaType :: "jsstring option"

section \<open>The rule tables (\<open>PATTERNS\<close>)\<close>

text \<open>A booster is \<open>{pattern, weight, reason}\<close>, the pattern given by its \<open>test\<close>.\<close>

type_synonym booster = "(jsstring \<Rightarrow> bool) \<times> int \<times> jsstring"

definition replyBoosters :: "booster list" where
  "replyBoosters =
    [(testQuestionMark, 12, ascii ''Questions trigger reply behavior''),
     (testWords [''what do you think'', ''thoughts?'', ''agree?'', ''disagree?''], 8,
        ascii ''Direct conversation invitations''),
     (testWords [''hot take'', ''unpopular opinion''], 6, ascii ''Debate-starting language'')]"

definition clickBoosters :: "booster list" where
  "clickBoosters =
    [(testWords [''check out'', ''try'', ''join'', ''see'', ''discover'', ''explore'', ''grab'', ''get'',
                 ''claim'', ''learn more''], 8, ascii ''Call-to-action verbs''),
     (testWords [''link in bio'', ''link below''], 5, ascii ''Link reference'')]"

definition favoriteBoosters :: "booster list" where
  "favoriteBoosters =
    [(testWords [''excited'', ''huge'', ''incredible'', ''amazing'', ''finally'', ''love''], 7,
        ascii ''Emotional resonance''),
     (testEmoji, 4, ascii ''Emoji engagement'')]"

definition shareBoosters :: "booster list" where
  "shareBoosters =
    [(testWords [''thread'', ''breakdown'', ''guide'', ''tips'', ''how to''], 8,
        ascii ''Shareable educational content''),
     (testWords [''announcement'', ''introducing'', ''launching'', ''releasing''], 6,
        ascii ''News-worthy content'')]"

definition followBoosters :: "booster list" where
  "followBoosters =
    [(testWords [''we'', ''our'', ''community'', ''fam'', ''frens''], 6, ascii ''Community language''),
     (testWords [''gm''], 4, ascii ''GM culture participation''),
     (testWords [''building'', ''shipping'', ''working on''], 5, ascii ''Builder credibility'')]"

text \<open>A negative trigger is \<open>{pattern, weight, signal, reason}\<close>.\<close>

type_synonym trigger = "(jsstring \<Rightarrow> bool) \<times> int \<times> jsstring \<times> jsstring"

definition negativeTriggers :: "trigger list" where
  "negativeTriggers =
    [(testWords [''buy now'', ''limited time'', ''act now'', ''dont miss''], - 15,
        ascii ''P(not_interested)'', ascii ''Hard sell language''),
     (testWords [''100x'', ''guaranteed'', ''free money'', ''get rich''], - 20,
        ascii ''P(report)'', ascii ''Scam-associated language''),
     (testWords [''like if'', ''rt if'', ''retweet to'', ''follow for'', ''drop a''], - 12,
        ascii ''P(not_interested)'', ascii ''Engagement bait'')]"

text \<open>A muted-risk pattern is \<open>{pattern, risk, reason}\<close>.\<close>

type_synonym muted_risk = "(jsstring \<Rightarrow> bool) \<times> jsstring \<times> jsstring"

definition mutedRiskPatterns :: "muted_risk list" where
  "mutedRiskPatterns =
    [(testWords [''airdrop'', ''whitelist'', ''presale''], ascii ''high'',
        ascii ''Commonly muted crypto terms''),
     (testWords [''mint price'', ''floor price'', ''paper hands'', ''diamond hands''], ascii ''medium'',
        ascii ''NFT jargon'')]"

section \<open>Spam indicators\<close>

text \<open>
  \<open>(text.match(/#\w+/g) || []).length\<close>: a match is a \<open>#\<close> followed by a run of word code
  units. The run holds no \<open>#\<close>, so the matches are the \<open>#\<close> that a word code unit follows.
\<close>

fun countHashtags :: "jsstring \<Rightarrow> nat" where
  "countHashtags (c # d # cs) =
     (if c = 0x23 \<and> isWordChar d then Suc (countHashtags (d # cs)) else countHashtags (d # cs))"
| "countHashtags _ = 0"

definition excessiveHashtags :: "jsstring \<Rightarrow> bool" where
  "excessiveHashtags s = (3 < countHashtags s)"

text \<open>\<open>(text.match(/[A-Z]/g) || []).length / Math.max(text.length, 1) > 0.5\<close>\<close>

definition excessiveCaps :: "jsstring \<Rightarrow> bool" where
  "excessiveCaps s =
     (lit_0_5 < fdiv (of_nat (length (filter isUpperAZ s))) (of_nat (max (length s) 1)))"

text \<open>
  The word count \<open>freq\<close> is a plain object, so a key is also looked up in \<open>Object.prototype\<close>.
  A key that names one of the inherited functions reads as that function, which is truthy;
  function \<open>+ 1\<close> is a string, stored as an own property, and string \<open>+ 1\<close> is a string again.
  The key \<open>__proto__\<close> reads as the prototype object, and the inherited setter ignores the
  string assigned to it. \<open>Math.max\<close> converts such a string to \<open>NaN\<close>.
\<close>

datatype freq_value = Count nat | NonNumericString

definition inheritedFunctions :: "jsstring list" where
  "inheritedFunctions = map ascii
    [''constructor'', ''hasOwnProperty'', ''isPrototypeOf'', ''propertyIsEnumerable'',
     ''toLocaleString'', ''toString'', ''valueOf'', ''__defineGetter__'', ''__defineSetter__'',
     ''__lookupGetter__'', ''__lookupSetter__'']"

fun setProperty :: "jsstring \<Rightarrow> freq_value \<Rightarrow> (jsstring \<times> freq_value) list \<Rightarrow> (jsstring \<times> freq_value) list" where
  "setProperty k v [] = [(k, v)]"
| "setProperty k v ((k', v') # ps) = (if k = k' then (k, v) # ps else (k', v') # setProperty k v ps)"

text \<open>\<open>freq[k] = (freq[k] || 0) + 1\<close>\<close>

definition increment :: "(jsstring \<times> freq_value) list \<Rightarrow> jsstring \<Rightarrow> (jsstring \<times> freq_value) list" where
  "increment freq k =
     (if k = ascii ''__proto__'' then freq
      else setProperty k
             (case map_of freq k of
                Some (Count n) \<Rightarrow> Count (n + 1)
              | Some NonNumericString \<Rightarrow> NonNumericString
              | None \<Rightarrow> if k \<in> set inheritedFunctions then NonNumericString else Count 1)
             freq)"

fun maxNumber :: "number \<Rightarrow> number \<Rightarrow> number" where
  "maxNumber NaN y = NaN"
| "maxNumber x NaN = NaN"
| "maxNumber NegInfinity y = y"
| "maxNumber x NegInfinity = x"
| "maxNumber (Num a) (Num b) = Num (max a b)"

fun toNumber :: "freq_value \<Rightarrow> number" where
  "toNumber (Count n) = Num (int n)"
| "toNumber NonNumericString = NaN"

fun Math_max :: "freq_value list \<Rightarrow> number" where
  "Math_max [] = NegInfinity"
| "Math_max (v # vs) = maxNumber (toNumber v) (Math_max vs)"

text \<open>
  The third check. \<open>toLowerCase\<close> follows the Unicode case tables of the engine and is a
  parameter of the model; \<open>forEach\<close> visits the words from the left. The limit an engine
  puts on the number of arguments of one call (the spread in \<open>Math.max(...)\<close>) is not
  modelled.
\<close>

definition wordFrequencies :: "(jsstring \<Rightarrow> jsstring) \<Rightarrow> jsstring list \<Rightarrow> (jsstring \<times> freq_value) list" where
  "wordFrequencies toLowerCase ws = fold (\<lambda>w freq. increment freq (toLowerCase w)) ws []"

definition wordRepetition :: "(jsstring \<Rightarrow> jsstring) \<Rightarrow> jsstring \<Rightarrow> bool" where
  "wordRepetition toLowerCase s =
     (let ws = splitOn isWhiteSpace s;
          freq = wordFrequencies toLowerCase ws
      in greaterThan' (Math_max (map snd freq)) 3 \<and> 10 < length ws)"

text \<open>A spam indicator is \<open>{check, weight, reason}\<close>.\<close>

type_synonym spam_indicator = "(jsstring \<Rightarrow> bool) \<times> int \<times> jsstring"

definition spamIndicators :: "(jsstring \<Rightarrow> jsstring) \<Rightarrow> spam_indicator list" where
  "spamIndicators toLowerCase =
    [(excessiveHashtags, - 8, ascii ''Excessive hashtags''),
     (excessiveCaps, - 10, ascii ''Excessive caps''),
     (wordRepetition toLowerCase, - 8, ascii ''Word repetition'')]"

section \<open>The analysis passes\<close>

text \<open>One \<open>forEach\<close> over a booster table: the running score and the factors pushed.\<close>

fun applyBoosters :: "jsstring \<Rightarrow> jsstring \<Rightarrow> booster list \<Rightarrow> int \<times> results \<Rightarrow> int \<times> results" where
  "applyBoosters sig s [] (score, res) = (score, res)"
| "applyBoosters sig s ((pattern, weight, reason') # bs) (score, res) =
     (if pattern s
      then applyBoosters sig s bs
             (score + weight,
              res\<lparr>factors := factors res @
                [\<lparr>signal = sig, impact = ascii ''+'' @ numberToString weight, reason = reason'\<rparr>]\<rparr>)
      else applyBoosters sig s bs (score, res))"

definition analyzePredictions :: "jsstring \<Rightarrow> results \<Rightarrow> results" where
  "analyzePredictions s res =
     (let (replyScore, r1) = applyBoosters (ascii ''P(reply)'') s replyBoosters (30, res);
          (favoriteScore, r2) = applyBoosters (ascii ''P(favorite)'') s favoriteBoosters (40, r1);
          (clickScore, r3) = applyBoosters (ascii ''P(click)'') s clickBoosters (25, r2);
          (shareScore, r4) = applyBoosters (ascii ''P(repost)'') s shareBoosters (20, r3);
          (followScore, r5) = applyBoosters (ascii ''P(follow_author)'') s followBoosters (25, r4)
      in r5\<lparr>predictions :=
            [(ascii ''P(reply)'', min 100 replyScore),
             (ascii ''P(favorite)'', min 100 favoriteScore),
             (ascii ''P(click)'', min 100 clickScore),
             (ascii ''P(repost)'', min 100 shareScore),
             (ascii ''P(follow_author)'', min 100 followScore)]\<rparr>)"

definition pushFactor :: "string \<Rightarrow> string \<Rightarrow> string \<Rightarrow> results \<Rightarrow> results" where
  "pushFactor sig imp rsn res =
     res\<lparr>factors := factors res @ [\<lparr>signal = ascii sig, impact = ascii imp, reason = ascii rsn\<rparr>]\<rparr>"

definition analyzeContentQuality :: "jsstring \<Rightarrow> results \<Rightarrow> results" where
  "analyzeContentQuality s res =
     (let qualityScore = 60;
          (qualityScore, res) =
             (if testWords [''new'', ''update'', ''launch'', ''feature'', ''announcing'', ''introducing''] s
              then (qualityScore + 10, pushFactor ''Content value'' ''+10'' ''Informational content'' res)
              else (qualityScore, res));
          (qualityScore, res) =
             (if testDigits s
              then (qualityScore + 8, pushFactor ''Specificity'' ''+8'' ''Contains specific numbers/data'' res)
              else (qualityScore, res));
          hook = take 120 s;
          (qualityScore, res) =
             (if testPrefix [''NEW'', ''BREAKING'', ''HUGE'', ''FINALLY'', ''JUST'', ''INTRODUCING''] hook
              then (qualityScore + 8, pushFactor ''Hook strength'' ''+8'' ''Strong opening word'' res)
              else (qualityScore, res))
      in res\<lparr>scores := (scores res)\<lparr>contentQuality := Some (max 0 (min 100 qualityScore))\<rparr>\<rparr>)"

text \<open>The three \<open>forEach\<close> loops of \<open>analyzeNegativeSignals\<close>.\<close>

fun applyTriggers :: "jsstring \<Rightarrow> trigger list \<Rightarrow> int \<times> results \<Rightarrow> int \<times> results" where
  "applyTriggers s [] (safetyScore, res) = (safetyScore, res)"
| "applyTriggers s ((pattern, weight, signal', reason') # ts) (safetyScore, res) =
     (if pattern s
      then applyTriggers s ts
             (safetyScore + weight,
              res\<lparr>factors := factors res @
                     [\<lparr>signal = signal', impact = numberToString weight, reason = reason'\<rparr>],
                   warnings := warnings res @
                     [\<lparr>wtype = signal', risk = None, message = reason'\<rparr>]\<rparr>)
      else applyTriggers s ts (safetyScore, res))"

fun applySpamIndicators :: "jsstring \<Rightarrow> spam_indicator list \<Rightarrow> int \<times> results \<Rightarrow> int \<times> results" where
  "applySpamIndicators s [] (safetyScore, res) = (safetyScore, res)"
| "applySpamIndicators s ((check, weight, reason') # cs) (safetyScore, res) =
     (if check s
      then applySpamIndicators s cs
             (safetyScore + weight,
              res\<lparr>factors := factors res @
                     [\<lparr>signal = ascii ''Spam risk'', impact = numberToString weight, reason = reason'\<rparr>],
                   warnings := warnings res @
                     [\<lparr>wtype = ascii ''spam'', risk = None, message = reason'\<rparr>]\<rparr>)
      else applySpamIndicators s cs (safetyScore, res))"

fun applyMutedRisk :: "jsstring \<Rightarrow> muted_risk list \<Rightarrow> results \<Rightarrow> results" where
  "applyMutedRisk s [] res = res"
| "applyMutedRisk s ((pattern, risk', reason') # ms) res =
     (if pattern s
      then applyMutedRisk s ms
             (res\<lparr>warnings := warnings res @
                [\<lparr>wtype = ascii ''MutedKeywordFilter risk'', risk = Some risk', message = reason'\<rparr>]\<rparr>)
      else applyMutedRisk s ms res)"

definition analyzeNegativeSignals :: "(jsstring \<Rightarrow> jsstring) \<Rightarrow> jsstring \<Rightarrow> results \<Rightarrow> results" where
  "analyzeNegativeSignals toLowerCase s res =
     (let (safetyScore, res) = applyTriggers s negativeTriggers (100, res);
          (safetyScore, res) = applySpamIndicators s (spamIndicators toLowerCase) (safetyScore, res);
          res = applyMutedRisk s mutedRiskPatterns res
      in res\<lparr>scores := (scores res)\<lparr>safety := Some (max 0 safetyScore)\<rparr>\<rparr>)"

text \<open>\<open>const { mediaType = 'none' } = options\<close>: the default stands in for an absent key only.\<close>

definition analyzeFormat :: "jsstring \<Rightarrow> options \<Rightarrow> results \<Rightarrow> results" where
  "analyzeFormat s opts res =
     (let formatScore = 50;
          mediaType' = (case mediaType opts of None \<Rightarrow> ascii ''none'' | Some m \<Rightarrow> m);
          (formatScore, res) =
             (if 100 \<le> length s \<and> length s \<le> 200
              then (formatScore + 10, pushFactor ''Length'' ''+10'' ''Optimal length (100-200 chars)'' res)
              else if length s < 50
              then (formatScore - 5,
                    res\<lparr>warnings := warnings res @
                      [\<lparr>wtype = ascii ''length'', risk = None,
                        message = ascii ''Very short - may lack context''\<rparr>]\<rparr>)
              else (formatScore, res));
          (formatScore, res) =
             (if mediaType' = ascii ''video''
              then (formatScore + 20, pushFactor ''P(video_view)'' ''+20'' ''Video content'' res)
              else if mediaType' = ascii ''image''
              then (formatScore + 15, pushFactor ''P(photo_expand)'' ''+15'' ''Image content'' res)
              else if mediaType' = ascii ''thread''
              then (formatScore + 10, pushFactor ''P(dwell)'' ''+10'' ''Thread format'' res)
              else (formatScore, res))
      in res\<lparr>scores := (scores res)\<lparr>format := Some (min 100 formatScore)\<rparr>\<rparr>)"

text \<open>\<open>x || d\<close> on a score: the default stands in for an absent key and for 0.\<close>

definition orDefault :: "int option \<Rightarrow> int \<Rightarrow> int" where
  "orDefault v d = (case v of None \<Rightarrow> d | Some x \<Rightarrow> if x = 0 then d else x)"

text \<open>The sum of the prediction values by \<open>reduce\<close>, each addition a double addition.\<close>

definition sumValues :: "int list \<Rightarrow> rat" where
  "sumValues vs = foldl (\<lambda>a b. fadd a (of_int b)) 0 vs"

definition weightedScore :: "rat \<Rightarrow> int \<Rightarrow> int \<Rightarrow> int \<Rightarrow> rat" where
  "weightedScore avgPrediction cq fm sf =
     fadd (fadd (fadd (fmul avgPrediction lit_0_5) (fmul (of_int cq) lit_0_2))
                (fmul (of_int fm) lit_0_15))
          (fmul (of_int sf) lit_0_15)"

text \<open>Without a prediction the average is 0 / 0, and \<open>NaN\<close> goes through the sum and the rounding.\<close>

definition calculateOverallScore :: "results \<Rightarrow> results" where
  "calculateOverallScore res =
     (let predictionValues = map snd (predictions res)
      in if predictionValues = []
         then res\<lparr>scores := (scores res)\<lparr>overall := Some NaN\<rparr>\<rparr>
         else
           let avgPrediction = fdiv (sumValues predictionValues) (of_nat (length predictionValues))
           in res\<lparr>scores := (scores res)\<lparr>overall := Some (Num (Math_round
                (weightedScore avgPrediction
                   (orDefault (contentQuality (scores res)) 50)
                   (orDefault (format (scores res)) 50)
                   (orDefault (safety (scores res)) 100))))\<rparr>\<rparr>)"

text \<open>\<open>predictions[k] < n\<close>; an absent key is \<open>undefined\<close>, and \<open>undefined < n\<close> is false.\<close>

definition predictionBelow :: "predictions_t \<Rightarrow> string \<Rightarrow> int \<Rightarrow> bool" where
  "predictionBelow p k n = (case map_of p (ascii k) of None \<Rightarrow> False | Some v \<Rightarrow> v < n)"

definition recAddQuestion :: recommendation where
  \<open>recAddQuestion =
     \<lparr>priority = ascii ''high'', action = ascii ''Add a question'',
      algorithmBenefit = ascii ''Increases P(reply) prediction from Phoenix ranking model'',
      example = ascii ''End with "Thoughts?" or "What would you add?"''\<rparr>\<close>

definition recCallToAction :: recommendation where
  \<open>recCallToAction =
     \<lparr>priority = ascii ''medium'', action = ascii ''Add a soft call-to-action'',
      algorithmBenefit = ascii ''Boosts P(click) and P(profile_click) in weighted scoring'',
      example = ascii ''Try "Check out...", "See more...", or "Explore..."''\<rparr>\<close>

definition recShareable :: recommendation where
  "recShareable =
     \<lparr>priority = ascii ''medium'', action = ascii ''Add shareable value'',
      algorithmBenefit = ascii ''Increases P(repost) and P(share) predictions'',
      example = ascii ''Include a tip, insight, or announcement worth sharing''\<rparr>"

definition recThread :: recommendation where
  "recThread =
     \<lparr>priority = ascii ''low'', action = ascii ''Consider thread format'',
      algorithmBenefit = ascii ''Long-form content performs better as threads, increasing P(dwell)'',
      example = ascii ''Break into 2-4 connected tweets''\<rparr>"

definition recCommunity :: recommendation where
  \<open>recCommunity =
     \<lparr>priority = ascii ''low'', action = ascii ''Add community language'',
      algorithmBenefit = ascii ''Increases P(follow_author) prediction'',
      example = ascii ''Use "we", "our community", or inclusive language''\<rparr>\<close>

definition generateRecommendations :: "results \<Rightarrow> options \<Rightarrow> results" where
  "generateRecommendations res opts =
     (let recs = [];
          recs = (if predictionBelow (predictions res) ''P(reply)'' 50 \<and> \<not> testQuestionMark (rtext res)
                  then recs @ [recAddQuestion] else recs);
          recs = (if predictionBelow (predictions res) ''P(click)'' 40
                  then recs @ [recCallToAction] else recs);
          recs = (if predictionBelow (predictions res) ''P(repost)'' 40
                  then recs @ [recShareable] else recs);
          recs = (if 250 < length (rtext res) \<and> mediaType opts \<noteq> Some (ascii ''thread'')
                  then recs @ [recThread] else recs);
          recs = (if predictionBelow (predictions res) ''P(follow_author)'' 40
                  then recs @ [recCommunity] else recs)
      in res\<lparr>recommendations := recs\<rparr>)"

definition analyzePost :: "(jsstring \<Rightarrow> jsstring) \<Rightarrow> jsstring \<Rightarrow> options \<Rightarrow> results" where
  "analyzePost toLowerCase s opts =
     (let res = \<lparr>rtext = s,
                 charCount = length s,
                 wordCount = length (filter (\<lambda>w. w \<noteq> []) (splitOn isWhiteSpace s)),
                 scores = \<lparr>contentQuality = None, format = None, safety = None, overall = None\<rparr>,
                 predictions = [],
                 factors = [],
                 recommendations = [],
                 warnings = []\<rparr>;
          res = analyzePredictions s res;
          res = analyzeContentQuality s res;
          res = analyzeNegativeSignals toLowerCase s res;
          res = analyzeFormat s opts res;
          res = calculateOverallScore res
      in generateRecommendations res opts)"

section \<open>Optimized variants\<close>

datatype error = TypeError

record variant =
  vtype :: jsstring
  content :: jsstring
  changes :: "jsstring list"
  expectedImpact :: jsstring

definition getChanges :: "jsstring \<Rightarrow> jsstring \<Rightarrow> jsstring list" where
  "getChanges original modified =
     (let changes = [];
          changes = (if includesQuestionMark modified \<and> \<not> includesQuestionMark original
                     then changes @ [ascii ''Added question''] else changes);
          changes = (if length original + 10 < length modified
                     then changes @ [ascii ''Added engagement hook''] else changes);
          changes = (if length changes = 0
                     then changes @ [ascii ''Structure optimized''] else changes)
      in changes)"

text \<open>The separator class \<open>[.!?]\<close> of the sentence split.\<close>

definition isSentenceEnd :: "code_unit \<Rightarrow> bool" where
  "isSentenceEnd c = (c = 0x2E \<or> c = 0x21 \<or> c = 0x3F)"

text \<open>
  The literals that are not ASCII are given by their code units, as the source file stores
  them. \<open>sentences[0]\<close> of an empty array is \<open>undefined\<close>, and \<open>undefined.trim()\<close> throws a
  \<open>TypeError\<close>. The third parameter \<open>options\<close> of the source is never read.
\<close>

definition generateOptimizedVariants :: "jsstring \<Rightarrow> results \<Rightarrow> error + variant list" where
  "generateOptimizedVariants s analysis =
     (let variants = [];
          primary = trim s;
          primary = (if predictionBelow (predictions analysis) ''P(reply)'' 50 \<and> \<not> includesQuestionMark s
                     then primary @ [0x0A, 0x0A] @ ascii ''Thoughts?'' else primary);
          variants = variants @
            [\<lparr>vtype = ascii ''Primary Optimized'', content = primary,
              changes = getChanges s primary,
              expectedImpact = ascii ''Balanced optimization for engagement''\<rparr>];
          convVariant = trim s @ [0x0A, 0x0A] @ ascii ''What would you add? '' @ [0xF0, 0x178, 0x2018, 0x2021];
          variants = variants @
            [\<lparr>vtype = ascii ''Conversation Starter'', content = convVariant,
              changes = [ascii ''Added direct reply invitation''],
              expectedImpact = ascii ''Significantly increases P(reply)''\<rparr>];
          sentences = filter (\<lambda>p. trim p \<noteq> []) (splitOn isSentenceEnd s);
          variants =
            (if 1 < length sentences
             then variants @
               [\<lparr>vtype = ascii ''Short & Punchy'',
                 content = trim (hd sentences) @ [0x2E, 0x0A, 0x0A] @ ascii ''More soon ''
                             @ [0xF0, 0x178, 0x2018, 0x20AC],
                 changes = [ascii ''Condensed to hook only'', ascii ''Added curiosity tease''],
                 expectedImpact = ascii ''Higher completion rate, builds anticipation''\<rparr>]
             else variants)
      in if 150 < length s
         then (case sentences of
                 [] \<Rightarrow> Inl TypeError
               | first # _ \<Rightarrow>
                   Inr (variants @
                     [\<lparr>vtype = ascii ''Thread Opener'',
                       content = [0xF0, 0x178, 0xA7, 0xB5, 0x20] @ trim first @ [0x0A, 0x0A]
                                   @ ascii ''(1/'' @ numberToString (int ((length sentences + 1) div 2))
                                   @ ascii '')'',
                       changes = [ascii ''Reformatted as thread'', ascii ''Added thread markers''],
                       expectedImpact = ascii ''Increases P(click), P(dwell) for long-form''\<rparr>]))
         else Inr variants)"

section \<open>Notions used in the statements\<close>

text \<open>The sum of the weights of the rules of a table that match a string.\<close>

definition matchedWeight :: "(('a \<Rightarrow> bool) \<times> int \<times> 'b) list \<Rightarrow> 'a \<Rightarrow> int" where
  "matchedWeight rules s = sum_list (map (\<lambda>r. fst (snd r)) (filter (\<lambda>r. fst r s) rules))"

text \<open>The sum of the weights of the rules that match \<open>u\<close> and do not match \<open>t\<close>.\<close>

definition newlyMatched :: "(('a \<Rightarrow> bool) \<times> int \<times> 'b) list \<Rightarrow> 'a \<Rightarrow> 'a \<Rightarrow> int" where
  "newlyMatched rules t u = matchedWeight (filter (\<lambda>r. \<not> fst r t) rules) u"

text \<open>The factors and warnings the loops over the tables push.\<close>

definition boosterFactors :: "jsstring \<Rightarrow> booster list \<Rightarrow> jsstring \<Rightarrow> factor list" where
  "boosterFactors sig bs s =
     map (\<lambda>r. \<lparr>signal = sig, impact = ascii ''+'' @ numberToString (fst (snd r)), reason = snd (snd r)\<rparr>)
         (filter (\<lambda>r. fst r s) bs)"

definition triggerFactors :: "trigger list \<Rightarrow> jsstring \<Rightarrow> factor list" where
  "triggerFactors ts s =
     map (\<lambda>r. \<lparr>signal = fst (snd (snd r)), impact = numberToString (fst (snd r)), reason = snd (snd (snd r))\<rparr>)
         (filter (\<lambda>r. fst r s) ts)"

definition triggerWarnings :: "trigger list \<Rightarrow> jsstring \<Rightarrow> warning list" where
  "triggerWarnings ts s =
     map (\<lambda>r. \<lparr>wtype = fst (snd (snd r)), risk = None, message = snd (snd (snd r))\<rparr>)
         (filter (\<lambda>r. fst r s) ts)"

definition spamFactors :: "spam_indicator list \<Rightarrow> jsstring \<Rightarrow> factor list" where
  "spamFactors cs s =
     map (\<lambda>r. \<lparr>signal = ascii ''Spam risk'', impact = numberToString (fst (snd r)), reason = snd (snd r)\<rparr>)
         (filter (\<lambda>r. fst r s) cs)"

definition spamWarnings :: "spam_indicator list \<Rightarrow> jsstring \<Rightarrow> warning list" where
  "spamWarnings cs s =
     map (\<lambda>r. \<lparr>wtype = ascii ''spam'', risk = None, message = snd (snd r)\<rparr>)
         (filter (\<lambda>r. fst r s) cs)"

definition mutedWarnings :: "muted_risk list \<Rightarrow> jsstring \<Rightarrow> warning list" where
  "mutedWarnings ms s =
     map (\<lambda>r. \<lparr>wtype = ascii ''MutedKeywordFilter risk'', risk = Some (fst (snd r)), message = snd (snd r)\<rparr>)
         (filter (\<lambda>r. fst r s) ms)"

text \<open>The score a result holds for a signal.\<close>

definition prediction :: "results \<Rightarrow> string \<Rightarrow> int option" where
  "prediction res k = map_of (predictions res) (ascii k)"

text \<open>\<open>toLowerCase\<close> on a string of ASCII code units.\<close>

definition asciiLower :: "jsstring \<Rightarrow> jsstring" where
  "asciiLower s = map (\<lambda>c. if 0x41 \<le> c \<and> c \<le> 0x5A then c + 0x20 else c) s"

text \<open>The call \<open>analyzePost(text, {})\<close>.\<close>

definition noOptions :: options where
  "noOptions = \<lparr>mediaType = None\<rparr>"

text \<open>The scores of the single passes and the warning of the format pass, as functions of
  the text and the options.\<close>

definition qualityScore :: "jsstring \<Rightarrow> int" where
  "qualityScore s =
     60 + (if testWords [''new'', ''update'', ''launch'', ''feature'', ''announcing'', ''introducing''] s then 10 else 0)
        + (if testDigits s then 8 else 0)
        + (if testPrefix [''NEW'', ''BREAKING'', ''HUGE'', ''FINALLY'', ''JUST'', ''INTRODUCING''] (take 120 s) then 8 else 0)"

definition formatScore :: "jsstring \<Rightarrow> options \<Rightarrow> int" where
  "formatScore s opts =
     50 + (if 100 \<le> length s \<and> length s \<le> 200 then 10 else if length s < 50 then - 5 else 0)
        + (if mediaType opts = Some (ascii ''video'') then 20
           else if mediaType opts = Some (ascii ''image'') then 15
           else if mediaType opts = Some (ascii ''thread'') then 10 else 0)"

definition formatWarnings :: "jsstring \<Rightarrow> warning list" where
  "formatWarnings s =
     (if length s < 50
      then [\<lparr>wtype = ascii ''length'', risk = None, message = ascii ''Very short - may lack context''\<rparr>]
      else [])"

definition predictionList :: "jsstring \<Rightarrow> predictions_t" where
  "predictionList s =
     [(ascii ''P(reply)'', min 100 (30 + matchedWeight replyBoosters s)),
      (ascii ''P(favorite)'', min 100 (40 + matchedWeight favoriteBoosters s)),
      (ascii ''P(click)'', min 100 (25 + matchedWeight clickBoosters s)),
      (ascii ''P(repost)'', min 100 (20 + matchedWeight shareBoosters s)),
      (ascii ''P(follow_author)'', min 100 (25 + matchedWeight followBoosters s))]"

definition safetyScore :: "(jsstring \<Rightarrow> jsstring) \<Rightarrow> jsstring \<Rightarrow> int" where
  "safetyScore lc s = 100 + matchedWeight negativeTriggers s + matchedWeight (spamIndicators lc) s"

text \<open>The result before the aggregation.\<close>

definition analysed :: "(jsstring \<Rightarrow> jsstring) \<Rightarrow> jsstring \<Rightarrow> options \<Rightarrow> results" where
  "analysed lc s opts =
     analyzeFormat s opts (analyzeNegativeSignals lc s (analyzeContentQuality s (analyzePredictions s
       \<lparr>rtext = s, charCount = length s,
        wordCount = length (filter (\<lambda>w. w \<noteq> []) (splitOn isWhiteSpace s)),
        scores = \<lparr>contentQuality = None, format = None, safety = None, overall = None\<rparr>,
        predictions = [], factors = [], recommendations = [], warnings = []\<rparr>)))"

text \<open>The alternatives of the second and the third reply booster.\<close>

definition invitations :: "string list" where
  "invitations = [''what do you think'', ''thoughts?'', ''agree?'', ''disagree?'']"

definition debates :: "string list" where
  "debates = [''hot take'', ''unpopular opinion'']"

text \<open>
  The word count of the third spam check: a key is plain when it names no property that
  \<open>Object.prototype\<close> hands down, \<open>countOf\<close> reads the count of a key, and \<open>counted\<close> says that
  the object holds counts only.
\<close>

definition plainKey :: "jsstring \<Rightarrow> bool" where
  "plainKey k = (k \<notin> set inheritedFunctions \<and> k \<noteq> ascii ''__proto__'')"

definition countOf :: "(jsstring \<times> freq_value) list \<Rightarrow> jsstring \<Rightarrow> nat" where
  "countOf freq k = (case map_of freq k of Some (Count n) \<Rightarrow> n | _ \<Rightarrow> 0)"

definition counted :: "(jsstring \<times> freq_value) list \<Rightarrow> bool" where
  "counted freq = list_all (\<lambda>p. case snd p of Count n \<Rightarrow> True | NonNumericString \<Rightarrow> False) freq"

text \<open>The post of the scam scenario, and a post that repeats a word and holds the word
  "constructor".\<close>

definition scamPost :: jsstring where
  "scamPost = ascii ''100x guaranteed returns, buy now!''"

definition repeated :: jsstring where
  "repeated = ascii ''constructor a a a a b c d e f g''"

section \<open>Arithmetic of the number model\<close>

declare floor_log2.simps [simp del]

lemma floor_log2_bounds: "0 < n \<Longrightarrow> 2 ^ floor_log2 n \<le> n \<and> n < 2 ^ Suc (floor_log2 n)"
proof (induction n rule: floor_log2.induct)
  case (1 n)
  show ?case
  proof (cases "n < 2")
    case True
    with 1(2) show ?thesis by (simp add: floor_log2.simps [of n])
  next
    case False
    then have "0 < n div 2" by simp
    with 1(1) False have "2 ^ floor_log2 (n div 2) \<le> n div 2 \<and> n div 2 < 2 ^ Suc (floor_log2 (n div 2))"
      by simp
    with False show ?thesis 
      by (simp add: floor_log2.simps [of n]) linarith
  qed
qed

lemma exponent_bounds:
  assumes "x \<noteq> 0"
  shows "2 powi (exponent x) \<le> \<bar>x\<bar>" and "\<bar>x\<bar> < 2 powi (exponent x + 1)"
proof -
  obtain a b where ab: "quotient_of \<bar>x\<bar> = (a, b)" by (cases "quotient_of \<bar>x\<bar>")
  then have b: "0 < b" and x: "\<bar>x\<bar> = of_int a / of_int b"
    using quotient_of_denom_pos quotient_of_div by blast+
  have "0 < \<bar>x\<bar>" using assms by simp
  with x b have a: "0 < a"
    by (simp add: zero_less_divide_iff)
  define la where "la = floor_log2 (nat a)"
  define lb where "lb = floor_log2 (nat b)"
  have "2 ^ la \<le> nat a" "nat a < 2 ^ Suc la" "2 ^ lb \<le> nat b" "nat b < 2 ^ Suc lb"
    using floor_log2_bounds [of "nat a"] floor_log2_bounds [of "nat b"] a b by (simp_all add: la_def lb_def)
  then have "(2::int) ^ la \<le> a" "a < 2 ^ Suc la" "(2::int) ^ lb \<le> b" "b < 2 ^ Suc lb"
    using a b by (simp_all add: le_nat_iff nat_less_iff)
  then have "(of_int ((2::int) ^ la) :: rat) \<le> of_int a" "(of_int a :: rat) < of_int (2 ^ Suc la)"
    "(of_int ((2::int) ^ lb) :: rat) \<le> of_int b" "(of_int b :: rat) < of_int (2 ^ Suc lb)"
    by (simp_all only: of_int_le_iff of_int_less_iff)
  then have A: "(2::rat) ^ la \<le> of_int a" "(of_int a :: rat) < 2 ^ Suc la"
    "(2 :: rat) ^ lb \<le> of_int b" "(of_int b :: rat) < 2 ^ Suc lb"
    by simp_all
  have lo: "2 powi (int la - int lb - 1) \<le> \<bar>x\<bar>"
  proof -
    have "(2::rat) powi (int la - int lb - 1) = 2 ^ la / 2 ^ Suc lb"
      by (simp add: power_int_diff power_int_add)
    also have "\<dots> \<le> of_int a / 2 ^ Suc lb" using A(1) by (simp add: divide_right_mono)
    also have "\<dots> \<le> of_int a / of_int b" using A(4) a b by (simp add: frac_le)
    finally show ?thesis by (simp add: x)
  qed
  have hi: "\<bar>x\<bar> < 2 powi (int la - int lb + 1)"
  proof -
    have "\<bar>x\<bar> = of_int a / of_int b" by (rule x)
    also have "\<dots> < 2 ^ Suc la / of_int b" using A(2) b by (simp add: divide_strict_right_mono)
    also have "\<dots> \<le> 2 ^ Suc la / 2 ^ lb" using A(3) b by (simp add: frac_le)
    also have "\<dots> = (2::rat) powi (int la - int lb + 1)"
      by (simp add: power_int_diff power_int_add)
    finally show ?thesis .
  qed
  show "2 powi (exponent x) \<le> \<bar>x\<bar>"
    using lo by (simp add: exponent_def ab Let_def la_def lb_def)
  show "\<bar>x\<bar> < 2 powi (exponent x + 1)"
    using hi by (auto simp add: exponent_def ab Let_def la_def lb_def not_le)
qed

lemma round_half_even_le: "x \<le> of_int n \<Longrightarrow> round_half_even x \<le> n"
proof -
  assume le: "x \<le> of_int n"
  show ?thesis
  proof (cases "x = of_int n")
    case True
    then show ?thesis by (simp add: round_half_even_def)
  next
    case False
    with le have "x < of_int n" by simp
    then have "\<lfloor>x\<rfloor> < n" by (simp add: floor_less_iff)
    then show ?thesis by (simp add: round_half_even_def Let_def)
  qed
qed

lemma round_half_even_ge: "of_int n \<le> x \<Longrightarrow> n \<le> round_half_even x"
proof -
  assume "of_int n \<le> x"
  then have "n \<le> \<lfloor>x\<rfloor>" by (simp add: le_floor_iff)
  then show ?thesis by (simp add: round_half_even_def Let_def)
qed

text \<open>Rounding keeps a number between two doubles of the same scale around it.\<close>

lemma binary64_dyadic_bounds:
  assumes x0: "0 < x" and xj: "x < 2 powi (j + 53)" and j: "- 1074 \<le> j"
    and nx: "of_int n * 2 powi j \<le> x" and xm: "x \<le> of_int m * 2 powi j"
  shows "of_int n * 2 powi j \<le> binary64 x \<and> binary64 x \<le> of_int m * 2 powi j"
proof -
  have xn0: "x \<noteq> 0" using x0 by simp
  define e where "e = max (exponent x) (- 1022)"
  have "2 powi (exponent x) \<le> x" using exponent_bounds(1) [OF xn0] x0 by simp
  also note xj
  finally have "(2::rat) powi (exponent x) < 2 powi (j + 53)" .
  have "\<not> j + 53 \<le> exponent x"
  proof
    assume "j + 53 \<le> exponent x"
    then have "(2::rat) powi (j + 53) \<le> 2 powi (exponent x)"
      by (rule power_int_increasing) simp
    with \<open>(2::rat) powi (exponent x) < 2 powi (j + 53)\<close> show False by simp
  qed
  then have "exponent x < j + 53" by simp
  then have ej: "e - 52 \<le> j" using j by (simp add: e_def)
  define k where "k = nat (j - (e - 52))"
  have q: "(2::rat) powi j = 2 powi (e - 52) * 2 ^ k"
  proof -
    have "(2::rat) powi j = 2 powi (e - 52 + int k)" using ej by (simp add: k_def)
    also have "\<dots> = 2 powi (e - 52) * 2 ^ k" by (simp add: power_int_add)
    finally show ?thesis .
  qed
  define q0 :: rat where "q0 = 2 powi (e - 52)"
  have q0: "0 < q0" by (simp add: q0_def)
  have "of_int (n * 2 ^ k) \<le> x / q0"
    using nx q0 by (simp add: q q0_def [symmetric] pos_le_divide_eq mult.commute mult.left_commute)
  then have lo: "n * 2 ^ k \<le> round_half_even (x / q0)" by (rule round_half_even_ge)
  have "x / q0 \<le> of_int (m * 2 ^ k)"
    using xm q0 by (simp add: q q0_def [symmetric] pos_divide_le_eq mult.commute mult.left_commute)
  then have hi: "round_half_even (x / q0) \<le> m * 2 ^ k" by (rule round_half_even_le)
  have b: "binary64 x = of_int (round_half_even (x / q0)) * q0"
    using xn0 by (simp add: binary64_def Let_def e_def [symmetric] q0_def)
  have "of_int n * 2 powi j = of_int (n * 2 ^ k) * q0"
    by (simp add: q q0_def)
  also have "\<dots> \<le> of_int (round_half_even (x / q0)) * q0"
    using lo q0 by (intro mult_right_mono) (simp_all only: of_int_le_iff less_imp_le)
  finally have 1: "of_int n * 2 powi j \<le> binary64 x" by (simp only: b)
  have "binary64 x \<le> of_int (m * 2 ^ k) * q0"
    unfolding b using hi q0 by (intro mult_right_mono) (simp_all only: of_int_le_iff less_imp_le)
  also have "\<dots> = of_int m * 2 powi j"
    by (simp add: q q0_def)
  finally have 2: "binary64 x \<le> of_int m * 2 powi j" .
  from 1 2 show ?thesis ..
qed

lemma binary64_bounds:
  assumes n: "0 < n" and nx: "of_int n \<le> x" and xm: "x \<le> of_int m" and m: "m < 2 ^ 53"
  shows "of_int n \<le> binary64 x \<and> binary64 x \<le> of_int m"
proof -
  have x0: "0 < x" using n nx by (meson less_le_trans of_int_0_less_iff)
  have "(of_int m :: rat) < of_int (2 ^ 53)" using m by (simp only: of_int_less_iff)
  with xm have x53: "x < 2 powi (0 + 53)" by simp
  from binary64_dyadic_bounds [OF x0 x53, of n m] nx xm show ?thesis by simp
qed

lemma binary64_of_int: "0 \<le> n \<Longrightarrow> n < 2 ^ 53 \<Longrightarrow> binary64 (of_int n) = of_int n"
proof (cases "n = 0")
  case True
  then show ?thesis by (simp add: binary64_def)
next
  case False
  assume "0 \<le> n" "n < 2 ^ 53"
  with False binary64_bounds [of n "of_int n" n] show ?thesis by simp
qed

text \<open>Rounding moves a number by at most half a unit in the last place.\<close>

lemma round_half_even_error: "\<bar>of_int (round_half_even x) - x\<bar> \<le> 1 / 2"
proof -
  have "of_int \<lfloor>x\<rfloor> \<le> x" "x < of_int \<lfloor>x\<rfloor> + 1" by linarith+
  then show ?thesis
    by (simp add: round_half_even_def Let_def abs_if) linarith
qed

lemma binary64_error:
  assumes xk: "\<bar>x\<bar> < 2 powi k" and k: "- 1021 \<le> k"
  shows "\<bar>binary64 x - x\<bar> \<le> 2 powi (k - 54)"
proof (cases "x = 0")
  case True
  then show ?thesis by (simp add: binary64_def)
next
  case False
  define e where "e = max (exponent x) (- 1022)"
  define q :: rat where "q = 2 powi (e - 52)"
  have q: "0 < q" by (simp add: q_def)
  have "2 powi (exponent x) \<le> \<bar>x\<bar>" by (rule exponent_bounds(1) [OF False])
  also note xk
  finally have lt: "(2::rat) powi (exponent x) < 2 powi k" .
  have "\<not> k \<le> exponent x"
  proof
    assume "k \<le> exponent x"
    then have "(2::rat) powi k \<le> 2 powi (exponent x)"
      by (rule power_int_increasing) simp
    with lt show False by simp
  qed
  then have ek: "e \<le> k - 1" using k by (simp add: e_def)
  have b: "binary64 x = of_int (round_half_even (x / q)) * q"
    using False by (simp add: binary64_def Let_def e_def [symmetric] q_def)
  have "binary64 x - x = (of_int (round_half_even (x / q)) - x / q) * q"
    using q by (simp add: b algebra_simps)
  then have "\<bar>binary64 x - x\<bar> = \<bar>of_int (round_half_even (x / q)) - x / q\<bar> * q"
    using q by (simp add: abs_mult)
  also have "\<dots> \<le> 1 / 2 * q"
    using q round_half_even_error [of "x / q"] by (intro mult_right_mono) simp_all
  also have "\<dots> = 2 powi (e - 53)"
    by (simp add: q_def power_int_diff)
  also have "\<dots> \<le> 2 powi (k - 54)"
    using ek by (intro power_int_increasing) simp_all
  finally show ?thesis .
qed

lemma powi_47: "(2::rat) powi (- 47) = 1 / 140737488355328"
  by (simp add: power_int_minus inverse_eq_divide)

lemma binary64_near:
  assumes "- 128 < x" "x < 128"
  shows "x - 1 / 140737488355328 \<le> binary64 x \<and> binary64 x \<le> x + 1 / 140737488355328"
proof -
  have "\<bar>x\<bar> < 2 powi 7" using assms by simp
  then have "\<bar>binary64 x - x\<bar> \<le> 2 powi (7 - 54)" by (rule binary64_error) simp
  then have "\<bar>binary64 x - x\<bar> \<le> 1 / 140737488355328" using powi_47 by simp
  then show ?thesis by linarith
qed

lemma fdiv_zero: "fdiv 0 b = 0"
  by (simp add: fdiv_def binary64_def)

text \<open>The three literals are the doubles nearest to 1/2, 1/5 and 3/20.\<close>

lemma constants_exact:
  "binary64 (1 / 2) = lit_0_5" "binary64 (1 / 5) = lit_0_2" "binary64 (3 / 20) = lit_0_15"
  by (simp_all only: lit_0_5_def lit_0_2_def lit_0_15_def) code_simp+

lemma lit_0_2_bounds: "1 / 5 \<le> lit_0_2 \<and> lit_0_2 \<le> 201 / 1000"
  by (simp add: lit_0_2_def)

lemma lit_0_15_bounds: "149 / 1000 \<le> lit_0_15 \<and> lit_0_15 \<le> 3 / 20"
  by (simp add: lit_0_15_def)

lemma fadd_of_int:
  "0 \<le> a \<Longrightarrow> 0 \<le> b \<Longrightarrow> a + b < 2 ^ 53 \<Longrightarrow> fadd (of_int a) (of_int b) = of_int (a + b)"
  using binary64_of_int [of "a + b"] by (simp add: fadd_def)

lemma sumValues_five:
  assumes "0 \<le> a \<and> a \<le> 100" "0 \<le> b \<and> b \<le> 100" "0 \<le> c \<and> c \<le> 100"
    "0 \<le> d \<and> d \<le> 100" "0 \<le> e \<and> e \<le> 100"
  shows "sumValues [a, b, c, d, e] = of_int (a + b + c + d + e)"
proof -
  have 0: "fadd 0 (of_int a) = of_int a"
    using fadd_of_int [of 0 a] assms by simp
  have 1: "fadd (of_int a) (of_int b) = of_int (a + b)"
    using assms by (intro fadd_of_int) simp_all
  have 2: "fadd (of_int (a + b)) (of_int c) = of_int (a + b + c)"
    using assms by (intro fadd_of_int) simp_all
  have 3: "fadd (of_int (a + b + c)) (of_int d) = of_int (a + b + c + d)"
    using assms by (intro fadd_of_int) simp_all
  have 4: "fadd (of_int (a + b + c + d)) (of_int e) = of_int (a + b + c + d + e)"
    using assms by (intro fadd_of_int) simp_all
  show ?thesis
    by (simp only: sumValues_def foldl.simps 0 1 2 3 4)
qed

lemma fmul_bounds:
  assumes "0 < n" "of_int n \<le> a * b" "a * b \<le> of_int m" "m < 2 ^ 53"
  shows "of_int n \<le> fmul a b \<and> fmul a b \<le> of_int m"
  unfolding fmul_def using assms by (rule binary64_bounds)

lemma fadd_bounds:
  assumes "of_int n \<le> a \<and> a \<le> of_int m" "of_int n' \<le> b \<and> b \<le> of_int m'"
    "0 < n + n'" "m + m' < 2 ^ 53"
  shows "of_int (n + n') \<le> fadd a b \<and> fadd a b \<le> of_int (m + m')"
  unfolding fadd_def using assms by (intro binary64_bounds) simp_all

lemma scaled_bounds:
  fixes x c lo hi :: rat
  assumes c: "lo \<le> c \<and> c \<le> hi" and lo: "0 \<le> lo"
    and x: "of_int a \<le> x \<and> x \<le> of_int b" and a: "0 \<le> a"
    and n: "of_int n \<le> of_int a * lo" and m: "of_int b * hi \<le> of_int m"
  shows "of_int n \<le> x * c \<and> x * c \<le> of_int m"
proof -
  have "of_int a * lo \<le> x * c"
    using c lo x a by (intro mult_mono) simp_all
  moreover have "x * c \<le> of_int b * hi"
    using c lo x a by (intro mult_mono) simp_all
  ultimately show ?thesis using n m by simp
qed

lemma weightedScore_bounds:
  assumes S: "140 \<le> S \<and> S \<le> 220" and q: "60 \<le> q \<and> q \<le> 86"
    and f: "45 \<le> f \<and> f \<le> 80" and sf: "27 \<le> sf \<and> sf \<le> 100"
  shows "36 \<le> weightedScore (fdiv (of_int S) 5) q f sf \<and> weightedScore (fdiv (of_int S) 5) q f sf \<le> 67"
proof -
  have "of_int 28 \<le> (of_int S :: rat) / 5 \<and> (of_int S :: rat) / 5 \<le> of_int 44"
    using S by simp
  then have avg: "of_int 28 \<le> fdiv (of_int S) 5 \<and> fdiv (of_int S) 5 \<le> of_int 44"
    unfolding fdiv_def by (intro binary64_bounds) simp_all
  have a: "of_int 14 \<le> fmul (fdiv (of_int S) 5) lit_0_5 \<and> fmul (fdiv (of_int S) 5) lit_0_5 \<le> of_int 22"
    using avg by (intro fmul_bounds) (simp_all add: lit_0_5_def)
  have "of_int 12 \<le> (of_int q :: rat) * lit_0_2 \<and> (of_int q :: rat) * lit_0_2 \<le> of_int 18"
    by (rule scaled_bounds [OF lit_0_2_bounds, of 60 _ 86]) (use q in simp_all)
  then have b: "of_int 12 \<le> fmul (of_int q) lit_0_2 \<and> fmul (of_int q) lit_0_2 \<le> of_int 18"
    by (intro fmul_bounds) simp_all
  have "of_int 6 \<le> (of_int f :: rat) * lit_0_15 \<and> (of_int f :: rat) * lit_0_15 \<le> of_int 12"
    by (rule scaled_bounds [OF lit_0_15_bounds, of 45 _ 80]) (use f in simp_all)
  then have c: "of_int 6 \<le> fmul (of_int f) lit_0_15 \<and> fmul (of_int f) lit_0_15 \<le> of_int 12"
    by (intro fmul_bounds) simp_all
  have "of_int 4 \<le> (of_int sf :: rat) * lit_0_15 \<and> (of_int sf :: rat) * lit_0_15 \<le> of_int 15"
    by (rule scaled_bounds [OF lit_0_15_bounds, of 27 _ 100]) (use sf in simp_all)
  then have d: "of_int 4 \<le> fmul (of_int sf) lit_0_15 \<and> fmul (of_int sf) lit_0_15 \<le> of_int 15"
    by (intro fmul_bounds) simp_all
  have ab: "of_int (14 + 12) \<le> fadd (fmul (fdiv (of_int S) 5) lit_0_5) (fmul (of_int q) lit_0_2)
      \<and> fadd (fmul (fdiv (of_int S) 5) lit_0_5) (fmul (of_int q) lit_0_2) \<le> of_int (22 + 18)"
    using a b by (rule fadd_bounds) simp_all
  have abc: "of_int (14 + 12 + 6) \<le> fadd (fadd (fmul (fdiv (of_int S) 5) lit_0_5) (fmul (of_int q) lit_0_2)) (fmul (of_int f) lit_0_15)
      \<and> fadd (fadd (fmul (fdiv (of_int S) 5) lit_0_5) (fmul (of_int q) lit_0_2)) (fmul (of_int f) lit_0_15) \<le> of_int (22 + 18 + 12)"
    using ab c by (rule fadd_bounds) simp_all
  have "of_int (14 + 12 + 6 + 4) \<le> weightedScore (fdiv (of_int S) 5) q f sf
      \<and> weightedScore (fdiv (of_int S) 5) q f sf \<le> of_int (22 + 18 + 12 + 15)"
    unfolding weightedScore_def using abc d by (rule fadd_bounds) simp_all
  then show ?thesis by simp
qed

lemma Math_round_bounds: "of_int n \<le> x \<Longrightarrow> x \<le> of_int m \<Longrightarrow> n \<le> Math_round x \<and> Math_round x \<le> m"
  by (simp add: Math_round_def le_floor_iff floor_le_iff)

text \<open>
  The weighted sum written out, and its distance from the sum in exact arithmetic: seven
  roundings (the product with 0.5 is exact) and the two inexact literals stay below
  \<open>11 * 2^-47\<close>, so that the rounded score is a nearest integer of the exact sum, which is a
  multiple of 1/20.
\<close>

lemma weightedScore_explicit:
  "weightedScore a cq fm sf =
     binary64 (binary64 (binary64 (binary64 (a * binary64 (1 / 2)) + binary64 (of_int cq * binary64 (1 / 5)))
                         + binary64 (of_int fm * binary64 (3 / 20)))
               + binary64 (of_int sf * binary64 (3 / 20)))"
  by (simp only: weightedScore_def fadd_def fmul_def constants_exact)

lemma weightedScore_near:
  assumes S: "140 \<le> S \<and> S \<le> 220" and q: "60 \<le> q \<and> q \<le> 86"
    and f: "45 \<le> f \<and> f \<le> 80" and sf: "27 \<le> sf \<and> sf \<le> 100"
  shows "\<bar>weightedScore (fdiv (of_int S) 5) q f sf
          - (of_int S / 10 + of_int q / 5 + 3 * of_int f / 20 + 3 * of_int sf / 20)\<bar>
         \<le> 11 / 140737488355328"
proof -
  have S': "(140 :: rat) \<le> of_int S \<and> (of_int S :: rat) \<le> 220"
    and q': "(60 :: rat) \<le> of_int q \<and> (of_int q :: rat) \<le> 86"
    and f': "(45 :: rat) \<le> of_int f \<and> (of_int f :: rat) \<le> 80"
    and sf': "(27 :: rat) \<le> of_int sf \<and> (of_int sf :: rat) \<le> 100"
    using S q f sf by simp_all
  define avg where "avg = binary64 (of_int S / 5)"
  define t1 where "t1 = binary64 (avg * lit_0_5)"
  define t2 where "t2 = binary64 (of_int q * lit_0_2)"
  define t3 where "t3 = binary64 (of_int f * lit_0_15)"
  define t4 where "t4 = binary64 (of_int sf * lit_0_15)"
  define s1 where "s1 = binary64 (t1 + t2)"
  define s2 where "s2 = binary64 (s1 + t3)"
  define s3 where "s3 = binary64 (s2 + t4)"
  have avg: "of_int S / 5 - 1 / 140737488355328 \<le> avg \<and> avg \<le> of_int S / 5 + 1 / 140737488355328"
    unfolding avg_def using S' by (intro binary64_near) simp_all
  have t1: "avg * lit_0_5 - 1 / 140737488355328 \<le> t1 \<and> t1 \<le> avg * lit_0_5 + 1 / 140737488355328"
    unfolding t1_def using S' avg by (intro binary64_near) (simp_all add: lit_0_5_def)
  have t2: "of_int q * lit_0_2 - 1 / 140737488355328 \<le> t2 \<and> t2 \<le> of_int q * lit_0_2 + 1 / 140737488355328"
    unfolding t2_def using q' by (intro binary64_near) (simp_all add: lit_0_2_def)
  have t3: "of_int f * lit_0_15 - 1 / 140737488355328 \<le> t3 \<and> t3 \<le> of_int f * lit_0_15 + 1 / 140737488355328"
    unfolding t3_def using f' by (intro binary64_near) (simp_all add: lit_0_15_def)
  have t4: "of_int sf * lit_0_15 - 1 / 140737488355328 \<le> t4 \<and> t4 \<le> of_int sf * lit_0_15 + 1 / 140737488355328"
    unfolding t4_def using sf' by (intro binary64_near) (simp_all add: lit_0_15_def)
  have s1: "t1 + t2 - 1 / 140737488355328 \<le> s1 \<and> s1 \<le> t1 + t2 + 1 / 140737488355328"
    unfolding s1_def using S' q' avg t1 t2 by (intro binary64_near) (simp_all add: lit_0_5_def lit_0_2_def)
  have s2: "s1 + t3 - 1 / 140737488355328 \<le> s2 \<and> s2 \<le> s1 + t3 + 1 / 140737488355328"
    unfolding s2_def using S' q' f' avg t1 t2 t3 s1
    by (intro binary64_near) (simp_all add: lit_0_5_def lit_0_2_def lit_0_15_def)
  have s3: "s2 + t4 - 1 / 140737488355328 \<le> s3 \<and> s3 \<le> s2 + t4 + 1 / 140737488355328"
    unfolding s3_def using S' q' f' sf' avg t1 t2 t3 t4 s1 s2
    by (intro binary64_near) (simp_all add: lit_0_5_def lit_0_2_def lit_0_15_def)
  have w: "weightedScore (fdiv (of_int S) 5) q f sf = s3"
    by (simp only: weightedScore_def fadd_def fmul_def fdiv_def s3_def s2_def s1_def t1_def t2_def
        t3_def t4_def avg_def)
  have "s3 - (of_int S / 10 + of_int q / 5 + 3 * of_int f / 20 + 3 * of_int sf / 20) \<le> 11 / 140737488355328"
    "- (11 / 140737488355328) \<le> s3 - (of_int S / 10 + of_int q / 5 + 3 * of_int f / 20 + 3 * of_int sf / 20)"
    using S' q' f' sf' avg t1 t2 t3 t4 s1 s2 s3
    unfolding lit_0_5_def lit_0_2_def lit_0_15_def by linarith+
  then show ?thesis
    unfolding w by linarith
qed

lemma Math_round_nearest:
  assumes near: "\<bar>x - of_int T / 20\<bar> \<le> 11 / 140737488355328"
  shows "\<bar>of_int (Math_round x) - (of_int T / 20 :: rat)\<bar> \<le> 1 / 2"
proof -
  define n where "n = Math_round x"
  have "of_int n \<le> x + 1 / 2" "x + 1 / 2 < of_int n + 1"
    unfolding n_def Math_round_def by linarith+
  moreover from near have "x \<le> of_int T / 20 + 11 / 140737488355328"
    "of_int T / 20 - 11 / 140737488355328 \<le> x"
    by linarith+
  ultimately have "(of_int (20 * n) :: rat) < of_int (T + 11)" "(of_int (T - 11) :: rat) < of_int (20 * n)"
    by simp_all
  then have "20 * n < T + 11" "T - 11 < 20 * n"
    by (simp_all only: of_int_less_iff)
  then have "20 * n \<le> T + 10" "T - 10 \<le> 20 * n" by simp_all
  then have "(of_int (20 * n) :: rat) \<le> of_int (T + 10)" "(of_int (T - 10) :: rat) \<le> of_int (20 * n)"
    by (simp_all only: of_int_le_iff)
  then have "(of_int n :: rat) - of_int T / 20 \<le> 1 / 2" "- (1 / 2) \<le> (of_int n :: rat) - of_int T / 20"
    by simp_all
  then show ?thesis
    unfolding n_def [symmetric] by linarith
qed

lemma overall_written_out:
  assumes S: "140 \<le> S \<and> S \<le> 220" and q: "60 \<le> q \<and> q \<le> 86"
    and f: "45 \<le> f \<and> f \<le> 80" and sf: "27 \<le> sf \<and> sf \<le> 100"
  shows "\<bar>of_int (Math_round (weightedScore (fdiv (of_int S) 5) q f sf))
          - (of_int S / 5 * (5 / 10) + of_int q * (2 / 10) + of_int f * (15 / 100)
             + of_int sf * (15 / 100) :: rat)\<bar> \<le> 1 / 2"
proof -
  have e: "(of_int S / 5 * (5 / 10) + of_int q * (2 / 10) + of_int f * (15 / 100)
             + of_int sf * (15 / 100) :: rat) = of_int (2 * S + 4 * q + 3 * f + 3 * sf) / 20"
    by simp
  have "\<bar>weightedScore (fdiv (of_int S) 5) q f sf - of_int (2 * S + 4 * q + 3 * f + 3 * sf) / 20\<bar>
      \<le> 11 / 140737488355328"
    using weightedScore_near [OF assms] by (simp add: field_simps)
  then show ?thesis unfolding e by (rule Math_round_nearest)
qed

lemma Math_round_written_out:
  "Math_round (weightedScore (fdiv (of_int S) 5) cq fm sf) =
     \<lfloor>binary64 (binary64 (binary64 (
          binary64 (binary64 (of_int S / 5) * binary64 (5 / 10))
          + binary64 (of_int cq * binary64 (2 / 10)))
          + binary64 (of_int fm * binary64 (15 / 100)))
          + binary64 (of_int sf * binary64 (15 / 100))) + 1 / 2\<rfloor>"
proof -
  have e: "(5 / 10 :: rat) = 1 / 2" "(2 / 10 :: rat) = 1 / 5" "(15 / 100 :: rat) = 3 / 20"
    by simp_all
  show ?thesis
    by (simp only: e Math_round_def weightedScore_explicit fdiv_def)
qed

text \<open>The ratio test of the caps check is exact up to \<open>2^52\<close> code units.\<close>

lemma powi_53: "(2::rat) powi (- 53) = 1 / 9007199254740992"
  by (simp add: power_int_minus inverse_eq_divide)

lemma ratio_above_half:
  assumes l: "0 < l" "l \<le> 4503599627370496" and c: "c \<le> l"
  shows "(lit_0_5 < fdiv (of_nat c) (of_nat l)) = (l < 2 * c)"
proof (cases "l < 2 * c")
  case True
  define x :: rat where "x = of_nat c / of_nat l"
  have lpos: "(0 :: rat) < of_nat l" using l(1) by simp
  have x1: "x \<le> 1" using c lpos by (simp add: x_def)
  have "l + 1 \<le> 2 * c" using True by simp
  then have "(of_nat (l + 1) :: rat) \<le> of_nat (2 * c)" by (simp only: of_nat_le_iff)
  then have lc: "of_nat l + 1 \<le> (2 * of_nat c :: rat)" by simp
  have "(of_nat l :: rat) \<le> of_nat 4503599627370496" using l(2) by (simp only: of_nat_le_iff)
  then have l52: "(of_nat l :: rat) \<le> 4503599627370496" by simp
  have "4503599627370497 * (of_nat l :: rat) \<le> 4503599627370496 * (of_nat l + 1)"
    using l52 by (simp add: algebra_simps)
  also have "\<dots> \<le> 4503599627370496 * (2 * of_nat c)"
    using lc by (intro mult_left_mono) simp_all
  finally have "4503599627370497 * (of_nat l :: rat) \<le> 9007199254740992 * of_nat c" by simp
  then have "4503599627370497 / 9007199254740992 \<le> x"
    using lpos by (simp add: x_def field_simps)
  then have lo: "of_int 4503599627370497 * 2 powi (- 53) \<le> x"
    by (simp only: powi_53 of_int_numeral times_divide_eq_right mult_1_right)
  have hi: "x \<le> of_int 9007199254740992 * 2 powi (- 53)"
    using x1 by (simp add: powi_53)
  have x0: "0 < x" using True lpos by (simp add: x_def)
  have "of_int 4503599627370497 * 2 powi (- 53) \<le> binary64 x"
  proof (cases "x = 1")
    case True
    have "binary64 (of_int 1) = of_int 1" by (rule binary64_of_int) simp_all
    then show ?thesis using True by (simp add: powi_53)
  next
    case False
    then have "x < 2 powi (- 53 + 53)" using x1 by simp
    from binary64_dyadic_bounds [OF x0 this _ lo hi] show ?thesis by simp
  qed
  then have "4503599627370497 / 9007199254740992 \<le> binary64 x"
    by (simp only: powi_53 of_int_numeral times_divide_eq_right mult_1_right)
  then have "lit_0_5 < binary64 x"
    by (simp add: lit_0_5_def)
  with True show ?thesis by (simp add: fdiv_def x_def)
next
  case False
  define x :: rat where "x = of_nat c / of_nat l"
  have lpos: "(0 :: rat) < of_nat l" using l(1) by simp
  have "2 * c \<le> l" using False by simp
  then have "(of_nat (2 * c) :: rat) \<le> of_nat l" by (simp only: of_nat_le_iff)
  then have "(2 * of_nat c :: rat) \<le> of_nat l" by simp
  then have xhalf: "x \<le> 1 / 2"
    using lpos by (simp add: x_def field_simps)
  have p1: "(2::rat) powi (- 1) = 1 / 2" by (simp add: power_int_minus inverse_eq_divide)
  have xh: "x \<le> of_int 1 * 2 powi (- 1)"
    using xhalf by (simp add: p1)
  have "binary64 x \<le> lit_0_5"
  proof (cases "x = 0")
    case True
    then show ?thesis by (simp add: binary64_def lit_0_5_def)
  next
    case False
    have "0 \<le> x" using lpos by (simp add: x_def)
    with False have x0: "0 < x" by simp
    have x52: "x < 2 powi (- 1 + 53)" using xhalf by simp
    have z: "of_int 0 * 2 powi (- 1) \<le> x" using x0 by simp
    from binary64_dyadic_bounds [OF x0 x52 _ z xh] have "binary64 x \<le> of_int 1 * 2 powi (- 1)" by simp
    then show ?thesis by (simp add: p1 lit_0_5_def)
  qed
  with False show ?thesis by (simp add: fdiv_def x_def)
qed

section \<open>What the passes compute\<close>

lemma matchedWeight_Nil [simp]: "matchedWeight [] s = 0"
  by (simp add: matchedWeight_def)

lemma matchedWeight_Cons [simp]:
  "matchedWeight (r # rs) s = (if fst r s then fst (snd r) else 0) + matchedWeight rs s"
  by (simp add: matchedWeight_def)

lemma applyBoosters_eq:
  "applyBoosters sig s bs (score, res) =
     (score + matchedWeight bs s, res\<lparr>factors := factors res @ boosterFactors sig bs s\<rparr>)"
proof (induction bs arbitrary: score res)
  case Nil
  show ?case by (simp add: boosterFactors_def)
next
  case (Cons b bs)
  obtain p w r where b: "b = (p, w, r)" by (cases b)
  show ?case by (simp add: b Cons.IH boosterFactors_def)
qed

lemma applyTriggers_eq:
  "applyTriggers s ts (score, res) =
     (score + matchedWeight ts s,
      res\<lparr>factors := factors res @ triggerFactors ts s,
          warnings := warnings res @ triggerWarnings ts s\<rparr>)"
proof (induction ts arbitrary: score res)
  case Nil
  show ?case by (simp add: triggerFactors_def triggerWarnings_def)
next
  case (Cons t ts)
  obtain p w g r where t: "t = (p, w, g, r)" by (cases t)
  show ?case by (simp add: t Cons.IH triggerFactors_def triggerWarnings_def)
qed

lemma applySpamIndicators_eq:
  "applySpamIndicators s cs (score, res) =
     (score + matchedWeight cs s,
      res\<lparr>factors := factors res @ spamFactors cs s,
          warnings := warnings res @ spamWarnings cs s\<rparr>)"
proof (induction cs arbitrary: score res)
  case Nil
  show ?case by (simp add: spamFactors_def spamWarnings_def)
next
  case (Cons c cs)
  obtain p w r where c: "c = (p, w, r)" by (cases c)
  show ?case by (simp add: c Cons.IH spamFactors_def spamWarnings_def)
qed

lemma applyMutedRisk_eq:
  "applyMutedRisk s ms res = res\<lparr>warnings := warnings res @ mutedWarnings ms s\<rparr>"
proof (induction ms arbitrary: res)
  case Nil
  show ?case by (simp add: mutedWarnings_def)
next
  case (Cons m ms)
  obtain p k r where m: "m = (p, k, r)" by (cases m)
  show ?case by (simp add: m Cons.IH mutedWarnings_def)
qed

lemma analyzePredictions_eq:
  "analyzePredictions s res =
     res\<lparr>predictions :=
            [(ascii ''P(reply)'', min 100 (30 + matchedWeight replyBoosters s)),
             (ascii ''P(favorite)'', min 100 (40 + matchedWeight favoriteBoosters s)),
             (ascii ''P(click)'', min 100 (25 + matchedWeight clickBoosters s)),
             (ascii ''P(repost)'', min 100 (20 + matchedWeight shareBoosters s)),
             (ascii ''P(follow_author)'', min 100 (25 + matchedWeight followBoosters s))],
         factors := factors res @ boosterFactors (ascii ''P(reply)'') replyBoosters s
                    @ boosterFactors (ascii ''P(favorite)'') favoriteBoosters s
                    @ boosterFactors (ascii ''P(click)'') clickBoosters s
                    @ boosterFactors (ascii ''P(repost)'') shareBoosters s
                    @ boosterFactors (ascii ''P(follow_author)'') followBoosters s\<rparr>"
  by (simp add: analyzePredictions_def applyBoosters_eq)

lemma analyzeNegativeSignals_eq:
  "analyzeNegativeSignals lc s res =
     res\<lparr>scores := (scores res)\<lparr>safety :=
            Some (max 0 (100 + matchedWeight negativeTriggers s + matchedWeight (spamIndicators lc) s))\<rparr>,
         factors := factors res @ triggerFactors negativeTriggers s @ spamFactors (spamIndicators lc) s,
         warnings := warnings res @ triggerWarnings negativeTriggers s
                     @ spamWarnings (spamIndicators lc) s @ mutedWarnings mutedRiskPatterns s\<rparr>"
  by (simp add: analyzeNegativeSignals_def applyTriggers_eq applySpamIndicators_eq applyMutedRisk_eq)

text \<open>The weights of a table add up within fixed bounds.\<close>

lemma matchedWeight_negativeTriggers:
  "- 47 \<le> matchedWeight negativeTriggers s \<and> matchedWeight negativeTriggers s \<le> 0"
  by (simp add: negativeTriggers_def)

lemma matchedWeight_spamIndicators:
  "- 26 \<le> matchedWeight (spamIndicators lc) s \<and> matchedWeight (spamIndicators lc) s \<le> 0"
  by (simp add: spamIndicators_def)

lemma matchedWeight_replyBoosters:
  "0 \<le> matchedWeight replyBoosters s \<and> matchedWeight replyBoosters s \<le> 26"
  by (simp add: replyBoosters_def)

lemma matchedWeight_favoriteBoosters:
  "0 \<le> matchedWeight favoriteBoosters s \<and> matchedWeight favoriteBoosters s \<le> 11"
  by (simp add: favoriteBoosters_def)

lemma matchedWeight_clickBoosters:
  "0 \<le> matchedWeight clickBoosters s \<and> matchedWeight clickBoosters s \<le> 13"
  by (simp add: clickBoosters_def)

lemma matchedWeight_shareBoosters:
  "0 \<le> matchedWeight shareBoosters s \<and> matchedWeight shareBoosters s \<le> 14"
  by (simp add: shareBoosters_def)

lemma matchedWeight_followBoosters:
  "0 \<le> matchedWeight followBoosters s \<and> matchedWeight followBoosters s \<le> 15"
  by (simp add: followBoosters_def)

lemma qualityScore_bounds: "60 \<le> qualityScore s \<and> qualityScore s \<le> 86"
  by (simp add: qualityScore_def)

lemma formatScore_bounds: "45 \<le> formatScore s opts \<and> formatScore s opts \<le> 80"
  by (simp add: formatScore_def)

lemma safetyScore_bounds: "27 \<le> safetyScore lc s \<and> safetyScore lc s \<le> 100"
  using matchedWeight_negativeTriggers [of s] matchedWeight_spamIndicators [of lc s]
  by (simp add: safetyScore_def)

lemma predictionList_bounds:
  "list_all (\<lambda>(k, v). 0 \<le> v \<and> v \<le> 100) (predictionList s)"
  using matchedWeight_replyBoosters [of s] matchedWeight_favoriteBoosters [of s]
    matchedWeight_clickBoosters [of s] matchedWeight_shareBoosters [of s]
    matchedWeight_followBoosters [of s]
  by (simp add: predictionList_def)

lemma predictionList_sum:
  "140 \<le> sum_list (map snd (predictionList s)) \<and> sum_list (map snd (predictionList s)) \<le> 220"
  using matchedWeight_replyBoosters [of s] matchedWeight_favoriteBoosters [of s]
    matchedWeight_clickBoosters [of s] matchedWeight_shareBoosters [of s]
    matchedWeight_followBoosters [of s]
  by (simp add: predictionList_def)

lemma sumValues_predictionList:
  "sumValues (map snd (predictionList s)) = of_int (sum_list (map snd (predictionList s)))"
proof -
  have "sumValues (map snd (predictionList s)) =
      of_int (min 100 (30 + matchedWeight replyBoosters s) + min 100 (40 + matchedWeight favoriteBoosters s)
        + min 100 (25 + matchedWeight clickBoosters s) + min 100 (20 + matchedWeight shareBoosters s)
        + min 100 (25 + matchedWeight followBoosters s))"
    unfolding predictionList_def list.map snd_conv
    using matchedWeight_replyBoosters [of s] matchedWeight_favoriteBoosters [of s]
      matchedWeight_clickBoosters [of s] matchedWeight_shareBoosters [of s]
      matchedWeight_followBoosters [of s]
    by (intro sumValues_five) simp_all
  then show ?thesis by (simp add: predictionList_def)
qed

text \<open>The content-quality pass and the format pass, field by field.\<close>

lemma scores_analyzeContentQuality:
  "scores (analyzeContentQuality s res) = (scores res)\<lparr>contentQuality := Some (qualityScore s)\<rparr>"
  by (simp add: analyzeContentQuality_def pushFactor_def Let_def qualityScore_def)

lemma predictions_analyzeContentQuality:
  "predictions (analyzeContentQuality s res) = predictions res"
  by (simp add: analyzeContentQuality_def pushFactor_def Let_def)

lemma warnings_analyzeContentQuality:
  "warnings (analyzeContentQuality s res) = warnings res"
  by (simp add: analyzeContentQuality_def pushFactor_def Let_def)

lemma rtext_analyzeContentQuality:
  "rtext (analyzeContentQuality s res) = rtext res"
  by (simp add: analyzeContentQuality_def pushFactor_def Let_def)

lemma counts_analyzeContentQuality:
  "charCount (analyzeContentQuality s res) = charCount res"
  "wordCount (analyzeContentQuality s res) = wordCount res"
  by (simp_all add: analyzeContentQuality_def pushFactor_def Let_def)

lemma ascii_media_neq:
  "ascii ''none'' \<noteq> ascii ''video''" "ascii ''none'' \<noteq> ascii ''image''" "ascii ''none'' \<noteq> ascii ''thread''"
  by (simp_all add: ascii_def)

lemma scores_analyzeFormat:
  "scores (analyzeFormat s opts res) = (scores res)\<lparr>format := Some (formatScore s opts)\<rparr>"
  by (cases "mediaType opts")
     (simp_all add: analyzeFormat_def pushFactor_def Let_def formatScore_def ascii_media_neq)

lemma predictions_analyzeFormat:
  "predictions (analyzeFormat s opts res) = predictions res"
  by (simp add: analyzeFormat_def pushFactor_def Let_def)

lemma warnings_analyzeFormat:
  "warnings (analyzeFormat s opts res) = warnings res @ formatWarnings s"
  by (simp add: analyzeFormat_def pushFactor_def Let_def formatWarnings_def)

lemma rtext_analyzeFormat:
  "rtext (analyzeFormat s opts res) = rtext res"
  by (simp add: analyzeFormat_def pushFactor_def Let_def)

lemma counts_analyzeFormat:
  "charCount (analyzeFormat s opts res) = charCount res"
  "wordCount (analyzeFormat s opts res) = wordCount res"
  by (simp_all add: analyzeFormat_def pushFactor_def Let_def)

text \<open>The fields of the result of \<open>analyzePost\<close>.\<close>

lemma analyzePost_analysed:
  "analyzePost lc s opts = generateRecommendations (calculateOverallScore (analysed lc s opts)) opts"
  by (simp add: analyzePost_def analysed_def Let_def)

lemma predictions_analysed: "predictions (analysed lc s opts) = predictionList s"
  by (simp add: analysed_def predictions_analyzeFormat analyzeNegativeSignals_eq
      predictions_analyzeContentQuality analyzePredictions_eq predictionList_def)

lemma rtext_analysed: "rtext (analysed lc s opts) = s"
  by (simp add: analysed_def rtext_analyzeFormat analyzeNegativeSignals_eq
      rtext_analyzeContentQuality analyzePredictions_eq)

lemma scores_analysed:
  "scores (analysed lc s opts) =
     \<lparr>contentQuality = Some (qualityScore s), format = Some (formatScore s opts),
      safety = Some (safetyScore lc s), overall = None\<rparr>"
  using safetyScore_bounds [of lc s]
  by (simp add: analysed_def scores_analyzeFormat analyzeNegativeSignals_eq
      scores_analyzeContentQuality analyzePredictions_eq safetyScore_def)

lemma warnings_analysed:
  "warnings (analysed lc s opts) =
     triggerWarnings negativeTriggers s @ spamWarnings (spamIndicators lc) s
       @ mutedWarnings mutedRiskPatterns s @ formatWarnings s"
  by (simp add: analysed_def warnings_analyzeFormat analyzeNegativeSignals_eq
      warnings_analyzeContentQuality analyzePredictions_eq)

lemma counts_analysed:
  "charCount (analysed lc s opts) = length s"
  "wordCount (analysed lc s opts) = length (filter (\<lambda>w. w \<noteq> []) (splitOn isWhiteSpace s))"
  by (simp_all add: analysed_def counts_analyzeFormat analyzeNegativeSignals_eq
      counts_analyzeContentQuality analyzePredictions_eq)

lemma calculateOverallScore_analysed:
  "calculateOverallScore (analysed lc s opts) =
     (analysed lc s opts)\<lparr>scores :=
        \<lparr>contentQuality = Some (qualityScore s), format = Some (formatScore s opts),
         safety = Some (safetyScore lc s),
         overall = Some (Num (Math_round (weightedScore
            (fdiv (of_int (sum_list (map snd (predictionList s)))) 5)
            (qualityScore s) (formatScore s opts) (safetyScore lc s))))\<rparr>\<rparr>"
proof -
  have ne: "predictionList s \<noteq> []" and len: "length (predictionList s) = 5"
    by (simp_all add: predictionList_def)
  have d: "orDefault (Some (qualityScore s)) 50 = qualityScore s"
    "orDefault (Some (formatScore s opts)) 50 = formatScore s opts"
    "orDefault (Some (safetyScore lc s)) 100 = safetyScore lc s"
    using qualityScore_bounds [of s] formatScore_bounds [of s opts] safetyScore_bounds [of lc s]
    by (simp_all add: orDefault_def)
  show ?thesis
    by (simp add: calculateOverallScore_def Let_def predictions_analysed scores_analysed ne len d
        sumValues_predictionList)
qed

lemma scores_analyzePost:
  "scores (analyzePost lc s opts) =
     \<lparr>contentQuality = Some (qualityScore s), format = Some (formatScore s opts),
      safety = Some (safetyScore lc s),
      overall = Some (Num (Math_round (weightedScore
         (fdiv (of_int (sum_list (map snd (predictionList s)))) 5)
         (qualityScore s) (formatScore s opts) (safetyScore lc s))))\<rparr>"
  by (simp add: analyzePost_analysed generateRecommendations_def Let_def calculateOverallScore_analysed)

lemma predictions_analyzePost: "predictions (analyzePost lc s opts) = predictionList s"
  by (simp add: analyzePost_analysed generateRecommendations_def Let_def calculateOverallScore_analysed
      predictions_analysed)

text \<open>The aggregation on a result whose \<open>scores\<close> hold no key: the defaults 50, 50 and 100.\<close>

lemma calculateOverallScore_defaults:
  "overall (scores (calculateOverallScore ((analyzePost lc s opts)\<lparr>scores :=
       \<lparr>contentQuality = None, format = None, safety = None, overall = None\<rparr>\<rparr>))) =
     Some (Num \<lfloor>binary64 (binary64 (binary64 (
        binary64 (binary64 (of_int (sum_list (map snd (predictions (analyzePost lc s opts)))) / 5)
                  * binary64 (5 / 10))
        + binary64 (50 * binary64 (2 / 10)))
        + binary64 (50 * binary64 (15 / 100)))
        + binary64 (100 * binary64 (15 / 100))) + 1 / 2\<rfloor>)"
proof -
  have ne: "predictionList s \<noteq> []" and len: "length (predictionList s) = 5"
    by (simp_all add: predictionList_def)
  have m: "Math_round (weightedScore (fdiv (of_int (sum_list (map snd (predictionList s)))) 5) 50 50 100) =
     \<lfloor>binary64 (binary64 (binary64 (
        binary64 (binary64 (of_int (sum_list (map snd (predictionList s))) / 5) * binary64 (5 / 10))
        + binary64 (50 * binary64 (2 / 10)))
        + binary64 (50 * binary64 (15 / 100)))
        + binary64 (100 * binary64 (15 / 100))) + 1 / 2\<rfloor>"
    using Math_round_written_out [of "sum_list (map snd (predictionList s))" 50 50 100]
    by (simp only: of_int_numeral)
  have "overall (scores (calculateOverallScore ((analyzePost lc s opts)\<lparr>scores :=
       \<lparr>contentQuality = None, format = None, safety = None, overall = None\<rparr>\<rparr>))) =
     Some (Num (Math_round (weightedScore (fdiv (of_int (sum_list (map snd (predictionList s)))) 5) 50 50 100)))"
    by (simp add: calculateOverallScore_def Let_def predictions_analyzePost ne len orDefault_def
        sumValues_predictionList)
  then show ?thesis
    by (simp only: m predictions_analyzePost)
qed

lemma warnings_analyzePost:
  "warnings (analyzePost lc s opts) =
     triggerWarnings negativeTriggers s @ spamWarnings (spamIndicators lc) s
       @ mutedWarnings mutedRiskPatterns s @ formatWarnings s"
  by (simp add: analyzePost_analysed generateRecommendations_def Let_def calculateOverallScore_analysed
      warnings_analysed)

lemma rtext_analyzePost: "rtext (analyzePost lc s opts) = s"
  by (simp add: analyzePost_analysed generateRecommendations_def Let_def calculateOverallScore_analysed
      rtext_analysed)

lemma counts_analyzePost:
  "charCount (analyzePost lc s opts) = length s"
  "wordCount (analyzePost lc s opts) = length (filter (\<lambda>w. w \<noteq> []) (splitOn isWhiteSpace s))"
  by (simp_all add: analyzePost_analysed generateRecommendations_def Let_def calculateOverallScore_analysed
      counts_analysed)

lemma prediction_analysed:
  "prediction (analysed lc s opts) ''P(reply)'' = Some (min 100 (30 + matchedWeight replyBoosters s))"
  "prediction (analysed lc s opts) ''P(click)'' = Some (min 100 (25 + matchedWeight clickBoosters s))"
  "prediction (analysed lc s opts) ''P(repost)'' = Some (min 100 (20 + matchedWeight shareBoosters s))"
  "prediction (analysed lc s opts) ''P(follow_author)'' = Some (min 100 (25 + matchedWeight followBoosters s))"
  by (simp_all add: prediction_def predictions_analysed predictionList_def ascii_def)

lemma prediction_reply:
  "prediction (analyzePost lc s opts) ''P(reply)'' = Some (30 + matchedWeight replyBoosters s)"
  using matchedWeight_replyBoosters [of s]
  by (simp add: prediction_def predictions_analyzePost predictionList_def)

lemma recommendations_analyzePost:
  "recommendations (analyzePost lc s opts) =
     (if min 100 (30 + matchedWeight replyBoosters s) < 50 \<and> \<not> testQuestionMark s then [recAddQuestion] else [])
     @ (if min 100 (25 + matchedWeight clickBoosters s) < 40 then [recCallToAction] else [])
     @ (if min 100 (20 + matchedWeight shareBoosters s) < 40 then [recShareable] else [])
     @ (if 250 < length s \<and> mediaType opts \<noteq> Some (ascii ''thread'') then [recThread] else [])
     @ (if min 100 (25 + matchedWeight followBoosters s) < 40 then [recCommunity] else [])"
proof -
  have p: "predictions (calculateOverallScore (analysed lc s opts)) = predictions (analysed lc s opts)"
    and t: "rtext (calculateOverallScore (analysed lc s opts)) = s"
    by (simp_all add: calculateOverallScore_analysed rtext_analysed)
  have b: "predictionBelow (predictions (analysed lc s opts)) ''P(reply)'' 50 = (min 100 (30 + matchedWeight replyBoosters s) < 50)"
    "predictionBelow (predictions (analysed lc s opts)) ''P(click)'' 40 = (min 100 (25 + matchedWeight clickBoosters s) < 40)"
    "predictionBelow (predictions (analysed lc s opts)) ''P(repost)'' 40 = (min 100 (20 + matchedWeight shareBoosters s) < 40)"
    "predictionBelow (predictions (analysed lc s opts)) ''P(follow_author)'' 40 = (min 100 (25 + matchedWeight followBoosters s) < 40)"
    using prediction_analysed [of lc s opts]
    by (simp_all add: predictionBelow_def prediction_def)
  define c1 where "c1 = (min 100 (30 + matchedWeight replyBoosters s) < 50 \<and> \<not> testQuestionMark s)"
  define c2 where "c2 = (min 100 (25 + matchedWeight clickBoosters s) < 40)"
  define c3 where "c3 = (min 100 (20 + matchedWeight shareBoosters s) < 40)"
  define c4 where "c4 = (250 < length s \<and> mediaType opts \<noteq> Some (ascii ''thread''))"
  define c5 where "c5 = (min 100 (25 + matchedWeight followBoosters s) < 40)"
  show ?thesis
    unfolding analyzePost_analysed generateRecommendations_def Let_def p t b
      c1_def [symmetric] c2_def [symmetric] c3_def [symmetric] c4_def [symmetric] c5_def [symmetric]
    by (cases c1; cases c2; cases c3; cases c4; cases c5) simp_all
qed

section \<open>Matches and appended text\<close>

lemma matchLiteral_append:
  "matchLiteral p prev v = Some (l, rest) \<Longrightarrow> matchLiteral p prev (v @ w) = Some (l, rest @ w)"
proof (induction p arbitrary: prev v)
  case Nil
  then show ?case by simp
next
  case (Cons a p)
  then show ?case by (cases v) (simp_all split: if_splits)
qed

lemma matchLiteral_end:
  "matchLiteral p prev v = Some (l, []) \<Longrightarrow> p \<noteq> [] \<Longrightarrow>
     v \<noteq> [] \<and> l = Some (last v) \<and> canonicalize (last v) = canonicalize (last p)"
proof (induction p arbitrary: prev v)
  case Nil
  then show ?case by simp
next
  case (Cons a p)
  from Cons.prems obtain c cs where v: "v = c # cs" and ca: "canonicalize c = canonicalize a"
    and m: "matchLiteral p (Some c) cs = Some (l, [])"
    by (cases v) (simp_all split: if_splits)
  show ?case
  proof (cases "p = []")
    case True
    with m v ca show ?thesis by simp
  next
    case False
    with Cons.IH [OF m] v show ?thesis by simp
  qed
qed

lemma wordBoundary_append: "rest \<noteq> [] \<Longrightarrow> wordBoundary l (rest @ w) = wordBoundary l rest"
  by (cases rest) (simp_all add: wordBoundary_def)

text \<open>A match that a longer text loses ended at the end of the text, in a word code unit,
  and the appended text starts with a word code unit.\<close>

lemma search_lost:
  assumes "searchFrom (matchWordsHere alts) prev t" and "\<not> searchFrom (matchWordsHere alts) prev (t @ s)"
    and "[] \<notin> set alts"
  shows "t \<noteq> [] \<and> isWordChar (last t) \<and> s \<noteq> [] \<and> isWordChar (hd s)
    \<and> canonicalize (last t) \<in> (\<lambda>p. canonicalize (last p)) ` set alts"
  using assms(1,2)
proof (induction t arbitrary: prev)
  case Nil
  with assms(3) show ?case
    by (auto simp: matchWordsHere_def list_ex_iff split: option.splits elim!: matchLiteral.elims)
next
  case (Cons c cs)
  from Cons.prems(2) have n1: "\<not> matchWordsHere alts prev (c # cs @ s)"
    and n2: "\<not> searchFrom (matchWordsHere alts) (Some c) (cs @ s)"
    by simp_all
  from Cons.prems(1) consider "matchWordsHere alts prev (c # cs)" | "searchFrom (matchWordsHere alts) (Some c) cs"
    by auto
  then show ?case
  proof cases
    case 2
    from Cons.IH [OF 2 n2] show ?thesis by auto
  next
    case 1
    then obtain p l rest where wb: "wordBoundary prev (c # cs)" and p: "p \<in> set alts"
      and m: "matchLiteral p prev (c # cs) = Some (l, rest)" and wr: "wordBoundary l rest"
      by (auto simp: matchWordsHere_def list_ex_iff split: option.splits)
    have m': "matchLiteral p prev (c # cs @ s) = Some (l, rest @ s)"
      using matchLiteral_append [OF m, of s] by simp
    have wb': "wordBoundary prev (c # cs @ s)"
      using wb by (simp add: wordBoundary_def)
    from n1 wb' p m' have nw: "\<not> wordBoundary l (rest @ s)"
      by (auto simp: matchWordsHere_def list_ex_iff split: option.splits)
    with wr wordBoundary_append [of rest l s] have rest: "rest = []" by auto
    from p assms(3) have pne: "p \<noteq> []" by auto
    from matchLiteral_end [OF m [unfolded rest] pne]
    have l: "l = Some (last (c # cs))" and ca: "canonicalize (last (c # cs)) = canonicalize (last p)"
      by simp_all
    from wr rest l have w1: "isWordChar (last (c # cs))" by (simp add: wordBoundary_def)
    from nw rest l w1 have w2: "s \<noteq> [] \<and> isWordChar (hd s)"
      by (cases s) (simp_all add: wordBoundary_def)
    from p ca w1 w2 show ?thesis by auto
  qed
qed

lemma testWords_lost:
  assumes "testWords alts t" and "\<not> testWords alts (t @ s)" and "[] \<notin> set alts"
  shows "t \<noteq> [] \<and> isWordChar (last t) \<and> s \<noteq> [] \<and> isWordChar (hd s)
    \<and> canonicalize (last t) \<in> (\<lambda>p. canonicalize (last (ascii p))) ` set alts"
proof -
  have "[] \<notin> set (map ascii alts)" using assms(3) by (auto simp: ascii_def)
  from search_lost [OF assms(1,2) [unfolded testWords_def] this] show ?thesis by auto
qed

lemma kept:
  assumes "testWords alts t" "[] \<notin> set alts" "t = [] \<or> \<not> isWordChar (last t) \<or> s = [] \<or> \<not> isWordChar (hd s)"
  shows "testWords alts (t @ s)"
  using testWords_lost [OF assms(1) _ assms(2), of s] assms(3) by blast

lemma replyBoosters_weight:
  "matchedWeight replyBoosters s =
     (if testQuestionMark s then 12 else 0) + (if testWords invitations s then 8 else 0)
       + (if testWords debates s then 6 else 0)"
  by (simp add: replyBoosters_def invitations_def debates_def)

lemma replyBoosters_new_weight:
  "newlyMatched replyBoosters t s =
     (if \<not> testQuestionMark t \<and> testQuestionMark s then 12 else 0)
       + (if \<not> testWords invitations t \<and> testWords invitations s then 8 else 0)
       + (if \<not> testWords debates t \<and> testWords debates s then 6 else 0)"
  by (simp add: newlyMatched_def replyBoosters_def invitations_def debates_def)

lemma last_invitations:
  "(\<lambda>p. canonicalize (last (ascii p))) ` set invitations = {0x4B, 0x3F}"
  by (auto simp: invitations_def ascii_def canonicalize_def)

lemma last_debates:
  "(\<lambda>p. canonicalize (last (ascii p))) ` set debates = {0x45, 0x4E}"
  by (auto simp: debates_def ascii_def canonicalize_def)

lemma not_both_lost:
  assumes "testWords invitations t" "testWords debates t"
  shows "testWords invitations (t @ s) \<or> testWords debates (t @ s)"
proof (rule ccontr)
  assume "\<not> (testWords invitations (t @ s) \<or> testWords debates (t @ s))"
  then have n: "\<not> testWords invitations (t @ s)" "\<not> testWords debates (t @ s)" by simp_all
  have ne: "[] \<notin> set invitations" "[] \<notin> set debates"
    by (simp_all add: invitations_def debates_def)
  from testWords_lost [OF assms(1) n(1) ne(1)]
  have "canonicalize (last t) \<in> (\<lambda>p. canonicalize (last (ascii p))) ` set invitations" by blast
  then have "canonicalize (last t) \<in> {0x4B, 0x3F}" by (simp only: last_invitations)
  moreover from testWords_lost [OF assms(2) n(2) ne(2)]
  have "canonicalize (last t) \<in> (\<lambda>p. canonicalize (last (ascii p))) ` set debates" by blast
  then have "canonicalize (last t) \<in> {0x45, 0x4E}" by (simp only: last_debates)
  ultimately show False by auto
qed

section \<open>The spam checks\<close>

text \<open>The caps check compares the number of the letters A to Z with half the length.\<close>

lemma excessiveCaps_exact:
  assumes "length s \<le> 4503599627370496"
  shows "excessiveCaps s = (max (length s) 1 < 2 * length (filter isUpperAZ s))"
proof -
  have "length (filter isUpperAZ s) \<le> max (length s) 1"
    using length_filter_le [of isUpperAZ s] by (simp add: le_max_iff_disj)
  with assms show ?thesis
    unfolding excessiveCaps_def by (intro ratio_above_half) simp_all
qed

lemma no_caps: "filter isUpperAZ s = [] \<Longrightarrow> \<not> excessiveCaps s"
  by (simp add: excessiveCaps_def fdiv_zero lit_0_5_def)

text \<open>
  The word repetition check, when no word is lowered to the name of an inherited property:
  some piece of the split is counted more than three times, and the pieces are more than
  ten.
\<close>

lemma map_of_setProperty: "map_of (setProperty k v ps) = (map_of ps)(k \<mapsto> v)"
  by (induction ps) (auto simp: fun_eq_iff)

lemma counted_setProperty: "counted ps \<Longrightarrow> counted (setProperty k (Count n) ps)"
  by (induction ps) (auto simp: counted_def)

lemma counted_lookup: "counted ps \<Longrightarrow> map_of ps k \<noteq> Some NonNumericString"
  by (induction ps) (auto simp: counted_def split: freq_value.splits)

lemma increment_plain:
  assumes "counted freq" "plainKey k"
  shows "counted (increment freq k)" and "countOf (increment freq k) = (countOf freq)(k := Suc (countOf freq k))"
proof -
  from assms(2) have k: "k \<notin> set inheritedFunctions" "k \<noteq> ascii ''__proto__''"
    by (simp_all add: plainKey_def)
  consider "map_of freq k = None" | n where "map_of freq k = Some (Count n)"
    using counted_lookup [OF assms(1), of k] by (cases "map_of freq k") (auto intro: freq_value.exhaust)
  then show "counted (increment freq k)"
    using k assms(1) by cases (simp_all add: increment_def counted_setProperty)
  show "countOf (increment freq k) = (countOf freq)(k := Suc (countOf freq k))"
    using k counted_lookup [OF assms(1), of k]
    by (auto simp: increment_def countOf_def map_of_setProperty fun_eq_iff split: option.splits freq_value.splits)
qed

lemma fold_increment_plain:
  assumes "counted freq" "list_all plainKey ks"
  shows "counted (fold (\<lambda>k f. increment f k) ks freq)
    \<and> countOf (fold (\<lambda>k f. increment f k) ks freq) k = countOf freq k + count_list ks k"
  using assms
proof (induction ks arbitrary: freq)
  case Nil
  then show ?case by simp
next
  case (Cons a ks)
  from Cons.prems have a: "plainKey a" and ks: "list_all plainKey ks" by simp_all
  note inc = increment_plain [OF Cons.prems(1) a]
  from Cons.IH [OF inc(1) ks] show ?case by (auto simp: inc(2))
qed

lemma Math_max_counted:
  assumes "counted freq"
  shows "greaterThan' (Math_max (map snd freq)) m = list_ex (\<lambda>p. case snd p of Count n \<Rightarrow> m < int n | NonNumericString \<Rightarrow> False) freq
    \<and> Math_max (map snd freq) \<noteq> NaN"
  using assms
proof (induction freq)
  case Nil
  then show ?case by simp
next
  case (Cons p ps)
  from Cons.prems obtain n where p: "snd p = Count n" and ps: "counted ps"
    by (auto simp: counted_def split: freq_value.splits)
  from Cons.IH [OF ps] show ?case
    by (cases "Math_max (map snd ps)") (auto simp: p)
qed

lemma keys_setProperty: "set (map fst (setProperty k v ps)) = insert k (set (map fst ps))"
proof (induction ps)
  case Nil
  show ?case by simp
next
  case (Cons p ps)
  obtain a b where p: "p = (a, b)" by (cases p)
  from Cons.IH show ?case by (cases "k = a") (simp_all add: p insert_commute)
qed

lemma distinct_setProperty: "distinct (map fst ps) \<Longrightarrow> distinct (map fst (setProperty k v ps))"
proof (induction ps)
  case Nil
  show ?case by simp
next
  case (Cons p ps)
  obtain a b where p: "p = (a, b)" by (cases p)
  from Cons.prems have a: "a \<notin> set (map fst ps)" and d: "distinct (map fst ps)"
    by (simp_all add: p)
  show ?case
  proof (cases "k = a")
    case True
    with Cons.prems show ?thesis by (simp add: p)
  next
    case False
    with a have "a \<notin> set (map fst (setProperty k v ps))"
      by (simp only: keys_setProperty) simp
    with Cons.IH [OF d] False show ?thesis by (simp add: p)
  qed
qed

lemma distinct_fold_increment:
  "distinct (map fst freq) \<Longrightarrow> distinct (map fst (fold (\<lambda>k f. increment f k) ks freq))"
proof (induction ks arbitrary: freq)
  case Nil
  then show ?case by simp
next
  case (Cons k ks)
  have "distinct (map fst (increment freq k))"
    using Cons.prems by (simp add: increment_def distinct_setProperty)
  from Cons.IH [OF this] show ?case by simp
qed

lemma some_count:
  assumes "counted freq" "distinct (map fst freq)" and that: "0 \<le> m"
  shows "list_ex (\<lambda>p. case snd p of Count n \<Rightarrow> m < int n | NonNumericString \<Rightarrow> False) freq
    = (\<exists>k. m < int (countOf freq k))"
proof
  assume "list_ex (\<lambda>p. case snd p of Count n \<Rightarrow> m < int n | NonNumericString \<Rightarrow> False) freq"
  then obtain p where p: "p \<in> set freq"
    and c: "case snd p of Count n \<Rightarrow> m < int n | NonNumericString \<Rightarrow> False"
    by (auto simp: list_ex_iff)
  from c obtain n where n: "snd p = Count n" "m < int n" by (cases "snd p") auto
  define k where "k = fst p"
  from p n have "(k, Count n) \<in> set freq" "m < int n"
    by (simp_all add: k_def) (metis prod.collapse)
  with assms(2) have "map_of freq k = Some (Count n)" by simp
  with \<open>m < int n\<close> have "m < int (countOf freq k)" by (simp add: countOf_def)
  then show "\<exists>k. m < int (countOf freq k)" ..
next
  assume "\<exists>k. m < int (countOf freq k)"
  then obtain k where k: "m < int (countOf freq k)" ..
  with that obtain n where "map_of freq k = Some (Count n)" "m < int n"
    by (auto simp: countOf_def split: option.splits freq_value.splits)
  then have "(k, Count n) \<in> set freq" by (simp add: map_of_SomeD)
  with \<open>m < int n\<close> show "list_ex (\<lambda>p. case snd p of Count n \<Rightarrow> m < int n | NonNumericString \<Rightarrow> False) freq"
    by (force simp: list_ex_iff)
qed

lemma wordRepetition_plain:
  assumes "list_all (\<lambda>w. plainKey (lc w)) (splitOn isWhiteSpace s)"
  shows "wordRepetition lc s =
    (list_ex (\<lambda>w. 3 < count_list (map lc (splitOn isWhiteSpace s)) (lc w)) (splitOn isWhiteSpace s)
     \<and> 10 < length (splitOn isWhiteSpace s))"
proof -
  define ws where "ws = splitOn isWhiteSpace s"
  define F where "F = fold (\<lambda>k f. increment f k) (map lc ws) []"
  have F: "wordFrequencies lc ws = F"
    by (simp add: wordFrequencies_def F_def fold_map comp_def)
  have pl: "list_all plainKey (map lc ws)"
    using assms by (simp add: ws_def list_all_iff)
  have c0: "counted []" by (simp add: counted_def)
  from fold_increment_plain [OF c0 pl]
  have cF: "counted F" and nF: "countOf F k = count_list (map lc ws) k" for k
    by (simp_all add: F_def countOf_def)
  have dF: "distinct (map fst F)"
    unfolding F_def by (rule distinct_fold_increment) simp
  have "greaterThan' (Math_max (map snd F)) 3 = (\<exists>k. 3 < int (countOf F k))"
    using Math_max_counted [OF cF, of 3] some_count [OF cF dF, of 3] by simp
  also have "\<dots> = (\<exists>k. 3 < count_list (map lc ws) k)"
    by (simp add: nF)
  also have "\<dots> = list_ex (\<lambda>w. 3 < count_list (map lc ws) (lc w)) ws"
  proof
    assume "\<exists>k. 3 < count_list (map lc ws) k"
    then obtain k where k: "3 < count_list (map lc ws) k" ..
    then have "k \<in> set (map lc ws)"
      by (metis count_list_0_iff not_less_zero)
    then obtain w where "w \<in> set ws" "k = lc w" by auto
    with k show "list_ex (\<lambda>w. 3 < count_list (map lc ws) (lc w)) ws"
      by (auto simp: list_ex_iff)
  next
    assume "list_ex (\<lambda>w. 3 < count_list (map lc ws) (lc w)) ws"
    then show "\<exists>k. 3 < count_list (map lc ws) k" by (auto simp: list_ex_iff)
  qed
  finally show ?thesis
    by (simp add: wordRepetition_def Let_def ws_def [symmetric] F)
qed

text \<open>Each check that fires takes its weight off and pushes one factor and one warning.\<close>

lemma spamIndicators_effect:
  "matchedWeight (spamIndicators lc) s =
     (if excessiveHashtags s then - 8 else 0) + (if excessiveCaps s then - 10 else 0)
       + (if wordRepetition lc s then - 8 else 0)"
  "spamWarnings (spamIndicators lc) s =
     (if excessiveHashtags s then [\<lparr>wtype = ascii ''spam'', risk = None, message = ascii ''Excessive hashtags''\<rparr>] else [])
     @ (if excessiveCaps s then [\<lparr>wtype = ascii ''spam'', risk = None, message = ascii ''Excessive caps''\<rparr>] else [])
     @ (if wordRepetition lc s then [\<lparr>wtype = ascii ''spam'', risk = None, message = ascii ''Word repetition''\<rparr>] else [])"
  "spamFactors (spamIndicators lc) s =
     (if excessiveHashtags s
      then [\<lparr>signal = ascii ''Spam risk'', impact = ascii ''-8'', reason = ascii ''Excessive hashtags''\<rparr>] else [])
     @ (if excessiveCaps s
        then [\<lparr>signal = ascii ''Spam risk'', impact = ascii ''-10'', reason = ascii ''Excessive caps''\<rparr>] else [])
     @ (if wordRepetition lc s
        then [\<lparr>signal = ascii ''Spam risk'', impact = ascii ''-8'', reason = ascii ''Word repetition''\<rparr>] else [])"
  by (simp_all add: spamIndicators_def spamWarnings_def spamFactors_def numberToString_def ascii_def)

section \<open>The variants\<close>

lemma getChanges_nonempty: "getChanges original modified \<noteq> []"
  by (simp add: getChanges_def Let_def)

text \<open>\<open>generateOptimizedVariants\<close> fails exactly on a text longer than 150 that has no sentence
  left; whenever it returns, the first two variants are the two fixed ones and every list
  of changes holds an entry.\<close>

lemma generateOptimizedVariants_fails:
  "(generateOptimizedVariants s analysis = Inl TypeError) =
     (150 < length s \<and> filter (\<lambda>p. trim p \<noteq> []) (splitOn isSentenceEnd s) = [])"
  by (simp add: generateOptimizedVariants_def Let_def split: list.splits)

lemma generateOptimizedVariants_returns:
  "(case generateOptimizedVariants s analysis of
      Inl e \<Rightarrow> True
    | Inr vs \<Rightarrow> 2 \<le> length vs
        \<and> map vtype (take 2 vs) = [ascii ''Primary Optimized'', ascii ''Conversation Starter'']
        \<and> list_all (\<lambda>v. changes v \<noteq> []) vs)"
  by (simp add: generateOptimizedVariants_def Let_def getChanges_nonempty split: list.splits)

lemma splitRuns_separators:
  "sep c \<Longrightarrow> splitRuns sep True cur (replicate n c) = [cur]"
  by (induction n) simp_all

lemma splitOn_separators:
  "sep c \<Longrightarrow> splitOn sep (replicate (Suc n) c) = [[], []]"
  by (simp add: splitOn_def splitRuns_separators)

lemma splitRuns_no_separator:
  "\<not> sep c \<Longrightarrow> splitRuns sep insep cur (replicate n c) = [cur @ replicate n c]"
proof (induction n arbitrary: insep cur)
  case 0
  show ?case by simp
next
  case (Suc n)
  then show ?case by (simp add: replicate_app_Cons_same)
qed

lemma trim_blank: "isWhiteSpace c \<Longrightarrow> trim (replicate n c) = []"
  by (simp add: trim_def)

section \<open>The posts of the scenarios\<close>

lemma empty_tests:
  "\<not> testWords alts []" "\<not> testQuestionMark []" "\<not> testEmoji []" "\<not> excessiveHashtags []"
  "\<not> excessiveCaps []" "\<not> wordRepetition lc []"
  by (simp_all add: testWords_def matchWordsHere_def wordBoundary_def testQuestionMark_def
      excessiveHashtags_def excessiveCaps_def fdiv_def binary64_def lit_0_5_def wordRepetition_def
      splitOn_def)

lemma scamPost_tests:
  "testWords [''buy now'', ''limited time'', ''act now'', ''dont miss''] scamPost"
  "testWords [''100x'', ''guaranteed'', ''free money'', ''get rich''] scamPost"
  "\<not> testWords [''like if'', ''rt if'', ''retweet to'', ''follow for'', ''drop a''] scamPost"
  "\<not> testWords [''airdrop'', ''whitelist'', ''presale''] scamPost"
  "\<not> testWords [''mint price'', ''floor price'', ''paper hands'', ''diamond hands''] scamPost"
  "\<not> excessiveHashtags scamPost"
  "filter isUpperAZ scamPost = []"
  "length (splitOn isWhiteSpace scamPost) = 5"
  "length scamPost = 33"
  by (simp_all only: scamPost_def) code_simp+

lemma scamPost_wordRepetition: "\<not> wordRepetition lc scamPost"
  by (simp add: wordRepetition_def Let_def scamPost_tests)

lemma hot_take_tests:
  "\<not> testQuestionMark (ascii ''Hot take'')"
  "\<not> testWords invitations (ascii ''Hot take'')"
  "testWords debates (ascii ''Hot take'')"
  "testQuestionMark (ascii ''Do you agree?'')"
  "testQuestionMark (ascii ''Hot take'' @ ascii ''Do you agree?'')"
  "\<not> testWords invitations (ascii ''Hot take'' @ ascii ''Do you agree?'')"
  "\<not> testWords debates (ascii ''Hot take'' @ ascii ''Do you agree?'')"
  "testQuestionMark (ascii '' Do you agree?'')"
  "testQuestionMark (ascii ''Hot take'' @ ascii '' Do you agree?'')"
  "\<not> testWords invitations (ascii ''Hot take'' @ ascii '' Do you agree?'')"
  "testWords debates (ascii ''Hot take'' @ ascii '' Do you agree?'')"
  "\<not> isWordChar (hd (ascii '' Do you agree?''))"
  by (simp_all only: invitations_def debates_def) code_simp+

lemma repeated_tests:
  "\<not> testWords [''buy now'', ''limited time'', ''act now'', ''dont miss''] repeated"
  "\<not> testWords [''100x'', ''guaranteed'', ''free money'', ''get rich''] repeated"
  "\<not> testWords [''like if'', ''rt if'', ''retweet to'', ''follow for'', ''drop a''] repeated"
  "\<not> testWords [''airdrop'', ''whitelist'', ''presale''] repeated"
  "\<not> testWords [''mint price'', ''floor price'', ''paper hands'', ''diamond hands''] repeated"
  "\<not> excessiveHashtags repeated"
  "filter isUpperAZ repeated = []"
  "length repeated = 31"
  "length (splitOn isWhiteSpace repeated) = 11"
  "count_list (map asciiLower (splitOn isWhiteSpace repeated)) (ascii ''a'') = 4"
  "\<not> wordRepetition asciiLower repeated"
  by (simp_all only: repeated_def) code_simp+

section \<open>The claims\<close>

text \<open>
  C1. For every text and options, \<open>analyzePost\<close> sets \<open>scores.overall\<close> to
  \<open>round(avgPrediction * 0.5 + contentQuality * 0.2 + format * 0.15 + safety * 0.15)\<close>, where
  \<open>avgPrediction\<close> is the mean of the five values of \<open>predictions\<close> and the three scores are
  the ones the result holds: they are present and not 0, so no default of the aggregation
  stands in for them. The products, the sums and the division are double operations
  (each one rounded by \<open>binary64\<close>, the weights the doubles nearest to the literals), \<open>round\<close>
  is \<open>Math.round\<close>, the floor of the sum plus one half. The result is a nearest integer of
  the same sum in exact arithmetic, and an integer in [0,100]. On a result whose \<open>scores\<close>
  hold none of the three keys the aggregation puts 50, 50 and 100 in their place.
\<close>

theorem C1_overall:
  "(case (contentQuality (scores (analyzePost lc s opts)), format (scores (analyzePost lc s opts)),
          safety (scores (analyzePost lc s opts)), overall (scores (analyzePost lc s opts))) of
      (Some cq, Some fm, Some sf, Some (Num n)) \<Rightarrow>
        length (predictions (analyzePost lc s opts)) = 5
        \<and> 0 < cq \<and> 0 < fm \<and> 0 < sf
        \<and> n = \<lfloor>binary64 (binary64 (binary64 (
                 binary64 (binary64 (of_int (sum_list (map snd (predictions (analyzePost lc s opts)))) / 5)
                           * binary64 (5 / 10))
                 + binary64 (of_int cq * binary64 (2 / 10)))
                 + binary64 (of_int fm * binary64 (15 / 100)))
                 + binary64 (of_int sf * binary64 (15 / 100))) + 1 / 2\<rfloor>
        \<and> \<bar>of_int n - (of_int (sum_list (map snd (predictions (analyzePost lc s opts)))) / 5 * (5 / 10)
                          + of_int cq * (2 / 10) + of_int fm * (15 / 100) + of_int sf * (15 / 100) :: rat)\<bar>
            \<le> 1 / 2
        \<and> 0 \<le> n \<and> n \<le> 100
    | _ \<Rightarrow> False)
   \<and> overall (scores (calculateOverallScore ((analyzePost lc s opts)\<lparr>scores :=
         \<lparr>contentQuality = None, format = None, safety = None, overall = None\<rparr>\<rparr>))) =
       Some (Num \<lfloor>binary64 (binary64 (binary64 (
          binary64 (binary64 (of_int (sum_list (map snd (predictions (analyzePost lc s opts)))) / 5)
                    * binary64 (5 / 10))
          + binary64 (50 * binary64 (2 / 10)))
          + binary64 (50 * binary64 (15 / 100)))
          + binary64 (100 * binary64 (15 / 100))) + 1 / 2\<rfloor>)"
proof -
  define S where "S = sum_list (map snd (predictionList s))"
  define n where "n = Math_round (weightedScore (fdiv (of_int S) 5)
            (qualityScore s) (formatScore s opts) (safetyScore lc s))"
  note b = predictionList_sum [of s, folded S_def] qualityScore_bounds [of s]
    formatScore_bounds [of s opts] safetyScore_bounds [of lc s]
  have sc: "scores (analyzePost lc s opts) =
     \<lparr>contentQuality = Some (qualityScore s), format = Some (formatScore s opts),
      safety = Some (safetyScore lc s), overall = Some (Num n)\<rparr>"
    by (simp only: scores_analyzePost n_def S_def)
  have len: "length (predictions (analyzePost lc s opts)) = 5"
    by (simp add: predictions_analyzePost predictionList_def)
  have sum: "sum_list (map snd (predictions (analyzePost lc s opts))) = S"
    by (simp only: predictions_analyzePost S_def)
  have pos: "0 < qualityScore s" "0 < formatScore s opts" "0 < safetyScore lc s"
    using b by simp_all
  have "36 \<le> weightedScore (fdiv (of_int S) 5) (qualityScore s) (formatScore s opts) (safetyScore lc s)
      \<and> weightedScore (fdiv (of_int S) 5) (qualityScore s) (formatScore s opts) (safetyScore lc s) \<le> 67"
    using b by (rule weightedScore_bounds)
  then have "36 \<le> n \<and> n \<le> 67"
    unfolding n_def using Math_round_bounds [of 36 _ 67] by simp
  then have range: "0 \<le> n" "n \<le> 100" by simp_all
  have formula: "n = \<lfloor>binary64 (binary64 (binary64 (
          binary64 (binary64 (of_int S / 5) * binary64 (5 / 10))
          + binary64 (of_int (qualityScore s) * binary64 (2 / 10)))
          + binary64 (of_int (formatScore s opts) * binary64 (15 / 100)))
          + binary64 (of_int (safetyScore lc s) * binary64 (15 / 100))) + 1 / 2\<rfloor>"
    unfolding n_def by (rule Math_round_written_out)
  have near: "\<bar>of_int n - (of_int S / 5 * (5 / 10) + of_int (qualityScore s) * (2 / 10)
        + of_int (formatScore s opts) * (15 / 100) + of_int (safetyScore lc s) * (15 / 100) :: rat)\<bar> \<le> 1 / 2"
    unfolding n_def using b by (rule overall_written_out)
  show ?thesis
    apply (rule conjI)
    subgoal
      unfolding sc sum scores_t.simps prod.case option.case number.case
      using len pos formula near range by (intro conjI)
    subgoal by (rule calculateOverallScore_defaults)
    done
qed

text \<open>
  C2. For every text, each of the five entries of \<open>predictions\<close> is its baseline (reply 30,
  favorite 40, click 25, repost 20, follow_author 25) plus the weights of the booster rules
  of its category whose pattern matches the text, clamped to at most 100, and lies in
  [0,100].
\<close>

theorem C2_predictions:
  "predictions (analyzePost lc s opts) =
     [(ascii ''P(reply)'', min 100 (30 + matchedWeight replyBoosters s)),
      (ascii ''P(favorite)'', min 100 (40 + matchedWeight favoriteBoosters s)),
      (ascii ''P(click)'', min 100 (25 + matchedWeight clickBoosters s)),
      (ascii ''P(repost)'', min 100 (20 + matchedWeight shareBoosters s)),
      (ascii ''P(follow_author)'', min 100 (25 + matchedWeight followBoosters s))]
   \<and> list_all (\<lambda>(k, v). 0 \<le> v \<and> v \<le> 100) (predictions (analyzePost lc s opts))"
  using predictionList_bounds [of s]
  by (simp only: predictions_analyzePost) (simp add: predictionList_def)

text \<open>
  C3. For every text and options, the recommendations of \<open>analyzePost\<close> are, in this order
  and with nothing else: "Add a question" (high) iff the reply prediction is below 50 and
  the text holds no question mark; "Add a soft call-to-action" (medium) iff the click
  prediction is below 40; "Add shareable value" (medium) iff the repost prediction is below
  40; "Consider thread format" (low) iff the text is longer than 250 and \<open>options.mediaType\<close>
  is not "thread"; "Add community language" (low) iff the follow_author prediction is below
  40.
\<close>

theorem C3_recommendations:
  "\<exists>reply click repost follow.
     prediction (analyzePost lc s opts) ''P(reply)'' = Some reply
     \<and> prediction (analyzePost lc s opts) ''P(click)'' = Some click
     \<and> prediction (analyzePost lc s opts) ''P(repost)'' = Some repost
     \<and> prediction (analyzePost lc s opts) ''P(follow_author)'' = Some follow
     \<and> recommendations (analyzePost lc s opts) =
         (if reply < 50 \<and> 0x3F \<notin> set s then [recAddQuestion] else [])
         @ (if click < 40 then [recCallToAction] else [])
         @ (if repost < 40 then [recShareable] else [])
         @ (if 250 < length s \<and> mediaType opts \<noteq> Some (ascii ''thread'') then [recThread] else [])
         @ (if follow < 40 then [recCommunity] else [])
     \<and> map (\<lambda>x. (action x, priority x)) [recAddQuestion, recCallToAction, recShareable, recThread, recCommunity] =
         [(ascii ''Add a question'', ascii ''high''),
          (ascii ''Add a soft call-to-action'', ascii ''medium''),
          (ascii ''Add shareable value'', ascii ''medium''),
          (ascii ''Consider thread format'', ascii ''low''),
          (ascii ''Add community language'', ascii ''low'')]"
proof -
  have k: "prediction (analyzePost lc s opts) k = prediction (analysed lc s opts) k" for k
    by (simp add: prediction_def predictions_analyzePost predictions_analysed)
  have r: "recommendations (analyzePost lc s opts) =
         (if min 100 (30 + matchedWeight replyBoosters s) < 50 \<and> 0x3F \<notin> set s then [recAddQuestion] else [])
         @ (if min 100 (25 + matchedWeight clickBoosters s) < 40 then [recCallToAction] else [])
         @ (if min 100 (20 + matchedWeight shareBoosters s) < 40 then [recShareable] else [])
         @ (if 250 < length s \<and> mediaType opts \<noteq> Some (ascii ''thread'') then [recThread] else [])
         @ (if min 100 (25 + matchedWeight followBoosters s) < 40 then [recCommunity] else [])"
    unfolding recommendations_analyzePost testQuestionMark_def ..
  have m: "map (\<lambda>x. (action x, priority x)) [recAddQuestion, recCallToAction, recShareable, recThread, recCommunity] =
         [(ascii ''Add a question'', ascii ''high''),
          (ascii ''Add a soft call-to-action'', ascii ''medium''),
          (ascii ''Add shareable value'', ascii ''medium''),
          (ascii ''Consider thread format'', ascii ''low''),
          (ascii ''Add community language'', ascii ''low'')]"
    by (simp add: recAddQuestion_def recCallToAction_def recShareable_def recThread_def recCommunity_def)
  show ?thesis
    unfolding k prediction_analysed
    by (intro exI conjI) (rule refl r m)+
qed

text \<open>
  C4. \<open>generateOptimizedVariants\<close> fails on a text of 151 exclamation marks and on a text of
  151 spaces, whatever the analysis: the text is longer than 150, no piece of the sentence
  split is left after the blank ones are dropped, and the thread opener reads
  \<open>sentences[0].trim()\<close>.
\<close>

theorem C4_variants_throw:
  "generateOptimizedVariants (replicate 151 0x21) analysis = Inl TypeError
   \<and> generateOptimizedVariants (replicate 151 0x20) analysis = Inl TypeError"
proof -
  have 1: "splitOn isSentenceEnd (replicate 151 0x21) = [[], []]"
    using splitOn_separators [of isSentenceEnd "0x21" 150] by (simp add: isSentenceEnd_def)
  have 2: "splitOn isSentenceEnd (replicate 151 0x20) = [replicate 151 0x20]"
    using splitRuns_no_separator [of isSentenceEnd "0x20" False "[]" 151]
    by (simp add: splitOn_def isSentenceEnd_def)
  have 3: "trim (replicate 151 0x20) = []" "trim [] = []"
    by (simp_all add: trim_blank isWhiteSpace_def) (simp add: trim_def)
  show ?thesis
    by (simp add: generateOptimizedVariants_def Let_def 1 2 3)
qed

text \<open>
  C5. For the text "100x guaranteed returns, buy now!" with empty options, exactly the
  hard-sell trigger (weight -15, signal P(not_interested)) and the scam-language trigger
  (weight -20, signal P(report)) fire and no spam indicator does, \<open>scores.safety\<close> is 65, and
  the warnings are three: the two of the triggers, then the warning of type "length" of the
  format pass, the text being shorter than 50.
\<close>

theorem C5_scam_post:
  "map (\<lambda>r. snd r) (filter (\<lambda>r. fst r scamPost) negativeTriggers) =
     [(- 15, ascii ''P(not_interested)'', ascii ''Hard sell language''),
      (- 20, ascii ''P(report)'', ascii ''Scam-associated language'')]
   \<and> safety (scores (analyzePost lc scamPost noOptions)) = Some 65
   \<and> warnings (analyzePost lc scamPost noOptions) =
       [\<lparr>wtype = ascii ''P(not_interested)'', risk = None, message = ascii ''Hard sell language''\<rparr>,
        \<lparr>wtype = ascii ''P(report)'', risk = None, message = ascii ''Scam-associated language''\<rparr>,
        \<lparr>wtype = ascii ''length'', risk = None, message = ascii ''Very short - may lack context''\<rparr>]"
  by (simp add: scores_analyzePost warnings_analyzePost safetyScore_def negativeTriggers_def
      spamIndicators_def mutedRiskPatterns_def triggerWarnings_def spamWarnings_def mutedWarnings_def
      formatWarnings_def scamPost_tests no_caps scamPost_wordRepetition)

text \<open>The warnings of that result are not two.\<close>

theorem C5_two_warnings_counterexample:
  "length (warnings (analyzePost asciiLower (ascii ''100x guaranteed returns, buy now!'') noOptions)) \<noteq> 2"
  by (simp add: warnings_analyzePost negativeTriggers_def
      spamIndicators_def mutedRiskPatterns_def triggerWarnings_def spamWarnings_def mutedWarnings_def
      formatWarnings_def scamPost_tests [unfolded scamPost_def] no_caps scamPost_wordRepetition [unfolded scamPost_def])

text \<open>
  C6. The text "constructor a a a a b c d e f g" has 11 words and the word "a" four times,
  yet the word repetition check does not fire: \<open>freq.constructor\<close> holds a string,
  \<open>Math.max\<close> is \<open>NaN\<close>, and \<open>NaN > 3\<close> is false. Safety stays 100 and no warning of type
  "spam" is pushed.
\<close>

theorem C6_repetition_missed:
  "length (splitOn isWhiteSpace (ascii ''constructor a a a a b c d e f g'')) = 11
   \<and> count_list (map asciiLower (splitOn isWhiteSpace (ascii ''constructor a a a a b c d e f g''))) (ascii ''a'') = 4
   \<and> \<not> wordRepetition asciiLower (ascii ''constructor a a a a b c d e f g'')
   \<and> safety (scores (analyzePost asciiLower (ascii ''constructor a a a a b c d e f g'') noOptions)) = Some 100
   \<and> filter (\<lambda>w. wtype w = ascii ''spam'')
        (warnings (analyzePost asciiLower (ascii ''constructor a a a a b c d e f g'') noOptions)) = []"
proof -
  have l: "ascii ''length'' \<noteq> ascii ''spam''" by (simp add: ascii_def)
  show ?thesis
    unfolding repeated_def [symmetric]
    by (simp add: scores_analyzePost warnings_analyzePost safetyScore_def negativeTriggers_def
      spamIndicators_def mutedRiskPatterns_def triggerWarnings_def spamWarnings_def mutedWarnings_def
      formatWarnings_def repeated_tests no_caps l)
qed

text \<open>
  C7. \<open>analyzePost("", {})\<close> returns a result with \<open>charCount\<close> 0, \<open>wordCount\<close> 0, the five
  predictions at their baselines (30, 40, 25, 20, 25) and \<open>scores.safety\<close> 100.
\<close>

theorem C7_empty_text:
  "charCount (analyzePost lc [] noOptions) = 0
   \<and> wordCount (analyzePost lc [] noOptions) = 0
   \<and> predictions (analyzePost lc [] noOptions) =
       [(ascii ''P(reply)'', 30), (ascii ''P(favorite)'', 40), (ascii ''P(click)'', 25),
        (ascii ''P(repost)'', 20), (ascii ''P(follow_author)'', 25)]
   \<and> safety (scores (analyzePost lc [] noOptions)) = Some 100"
  by (simp add: counts_analyzePost splitOn_def predictions_analyzePost predictionList_def scores_analyzePost
      safetyScore_def replyBoosters_def favoriteBoosters_def clickBoosters_def shareBoosters_def
      followBoosters_def negativeTriggers_def spamIndicators_def empty_tests)

text \<open>
  C8. For every text and every \<open>mediaType\<close> other than "image", "video" and "thread" (absent
  or not recognised), \<open>analyzePost\<close> returns the result it returns for \<open>mediaType\<close> "none"; the
  format score is 50 with the length adjustment only, without a media bonus.
\<close>

theorem C8_mediaType:
  assumes "mediaType opts \<notin> {Some (ascii ''image''), Some (ascii ''video''), Some (ascii ''thread'')}"
  shows "analyzePost lc s opts = analyzePost lc s (opts\<lparr>mediaType := Some (ascii ''none'')\<rparr>)
    \<and> format (scores (analyzePost lc s opts)) =
        Some (50 + (if 100 \<le> length s \<and> length s \<le> 200 then 10 else if length s < 50 then - 5 else 0))"
proof -
  have f: "analyzeFormat s opts res = analyzeFormat s (opts\<lparr>mediaType := Some (ascii ''none'')\<rparr>) res" for res
    using assms by (cases "mediaType opts") (simp_all add: analyzeFormat_def ascii_media_neq)
  have g: "generateRecommendations res opts = generateRecommendations res (opts\<lparr>mediaType := Some (ascii ''none'')\<rparr>)" for res
    using assms by (simp add: generateRecommendations_def ascii_media_neq)
  have 1: "analyzePost lc s opts = analyzePost lc s (opts\<lparr>mediaType := Some (ascii ''none'')\<rparr>)"
    unfolding analyzePost_def Let_def by (simp only: f g)
  have 2: "format (scores (analyzePost lc s opts)) =
        Some (50 + (if 100 \<le> length s \<and> length s \<le> 200 then 10 else if length s < 50 then - 5 else 0))"
    using assms by (simp add: scores_analyzePost formatScore_def)
  from 1 2 show ?thesis ..
qed

text \<open>The claim at the text "gm frens" with the media type "gif".\<close>

theorem C8_mediaType_witness:
  "Some (ascii ''gif'') \<notin> {Some (ascii ''image''), Some (ascii ''video''), Some (ascii ''thread'')}
   \<and> analyzePost asciiLower (ascii ''gm frens'') \<lparr>mediaType = Some (ascii ''gif'')\<rparr>
       = analyzePost asciiLower (ascii ''gm frens'') \<lparr>mediaType = Some (ascii ''none'')\<rparr>
   \<and> format (scores (analyzePost asciiLower (ascii ''gm frens'') \<lparr>mediaType = Some (ascii ''gif'')\<rparr>)) = Some 45"
proof -
  have h: "mediaType \<lparr>mediaType = Some (ascii ''gif'')\<rparr>
      \<notin> {Some (ascii ''image''), Some (ascii ''video''), Some (ascii ''thread'')}"
    by (simp add: ascii_def)
  have l: "length (ascii ''gm frens'') = 8" by (simp add: ascii_def)
  note w = C8_mediaType [OF h, of asciiLower "ascii ''gm frens''"]
  from w have 1: "analyzePost asciiLower (ascii ''gm frens'') \<lparr>mediaType = Some (ascii ''gif'')\<rparr>
       = analyzePost asciiLower (ascii ''gm frens'') \<lparr>mediaType = Some (ascii ''none'')\<rparr>"
    by simp
  from w have "format (scores (analyzePost asciiLower (ascii ''gm frens'') \<lparr>mediaType = Some (ascii ''gif'')\<rparr>))
      = Some (50 + (if 100 \<le> length (ascii ''gm frens'') \<and> length (ascii ''gm frens'') \<le> 200 then 10
                    else if length (ascii ''gm frens'') < 50 then - 5 else 0))"
    by (rule conjunct2)
  then have 2: "format (scores (analyzePost asciiLower (ascii ''gm frens'') \<lparr>mediaType = Some (ascii ''gif'')\<rparr>)) = Some 45"
    by (simp add: l)
  from h have 0: "Some (ascii ''gif'') \<notin> {Some (ascii ''image''), Some (ascii ''video''), Some (ascii ''thread'')}"
    by simp
  from 0 1 2 show ?thesis by (intro conjI)
qed

text \<open>
  C9. Let the text \<open>t\<close> hold no question mark and have a reply prediction below 50, and let
  \<open>s\<close> hold a question mark. Then the reply prediction of \<open>t + s\<close> is strictly greater than
  that of \<open>t\<close>. It is the old value plus the weights of the reply boosters that newly match
  minus the weights of those that no longer match; when \<open>t\<close> is empty or ends in a code unit
  that is not a word character, or \<open>s\<close> starts with one that is not (a space, say), every
  booster that matched \<open>t\<close> still matches, and the new value is the old value plus exactly
  the weights of the newly matching boosters.
\<close>

theorem C9_reply_monotone:
  assumes old: "prediction (analyzePost lc t opts) ''P(reply)'' = Some old"
    and below: "old < 50"
    and noq: "\<not> testQuestionMark t"
    and q: "testQuestionMark s"
    and new: "prediction (analyzePost lc (t @ s) opts) ''P(reply)'' = Some new"
  shows "old < new
    \<and> new = old + newlyMatched replyBoosters t (t @ s)
                 - newlyMatched replyBoosters (t @ s) t
    \<and> (t = [] \<or> \<not> isWordChar (last t) \<or> \<not> isWordChar (hd s)
         \<longrightarrow> new = old + newlyMatched replyBoosters t (t @ s))"
proof -
  have o: "old = 30 + matchedWeight replyBoosters t" and n: "new = 30 + matchedWeight replyBoosters (t @ s)"
    using old new by (simp_all add: prediction_reply)
  have q': "testQuestionMark (t @ s)" using q by (simp add: testQuestionMark_def)
  have 1: "old < new"
    using not_both_lost [of t s] noq q'
    by (auto simp: o n replyBoosters_weight)
  have 2: "new = old + newlyMatched replyBoosters t (t @ s)
                 - newlyMatched replyBoosters (t @ s) t"
    by (simp add: o n replyBoosters_weight replyBoosters_new_weight)
  have 3: "new = old + newlyMatched replyBoosters t (t @ s)"
    if b: "t = [] \<or> \<not> isWordChar (last t) \<or> \<not> isWordChar (hd s)"
  proof -
    have b': "t = [] \<or> \<not> isWordChar (last t) \<or> s = [] \<or> \<not> isWordChar (hd s)" using b by blast
    have "testWords invitations t \<Longrightarrow> testWords invitations (t @ s)"
      by (rule kept [OF _ _ b']) (simp_all add: invitations_def)
    moreover have "testWords debates t \<Longrightarrow> testWords debates (t @ s)"
      by (rule kept [OF _ _ b']) (simp_all add: debates_def)
    ultimately show ?thesis
      using noq q' by (auto simp: o n replyBoosters_weight replyBoosters_new_weight)
  qed
  from 1 2 3 show ?thesis by blast
qed

text \<open>
  Appending "Do you agree?" to "Hot take" without a separator: the debate booster matched
  "Hot take" and no longer matches "Hot takeDo you agree?", so the reply prediction goes
  from 36 to 42, not to 36 + 12.
\<close>

theorem C9_equality_counterexample:
  "prediction (analyzePost asciiLower (ascii ''Hot take'') noOptions) ''P(reply)'' = Some 36
   \<and> \<not> testQuestionMark (ascii ''Hot take'')
   \<and> testQuestionMark (ascii ''Do you agree?'')
   \<and> prediction (analyzePost asciiLower (ascii ''Hot take'' @ ascii ''Do you agree?'') noOptions) ''P(reply)'' = Some 42
   \<and> newlyMatched replyBoosters (ascii ''Hot take'')
        (ascii ''Hot take'' @ ascii ''Do you agree?'') = 12
   \<and> prediction (analyzePost asciiLower (ascii ''Hot take'' @ ascii ''Do you agree?'') noOptions) ''P(reply)''
        \<noteq> Some (36 + newlyMatched replyBoosters (ascii ''Hot take'')
                        (ascii ''Hot take'' @ ascii ''Do you agree?''))"
  by (simp add: prediction_reply replyBoosters_weight replyBoosters_new_weight hot_take_tests)

text \<open>The claim at "Hot take" and " Do you agree?".\<close>

theorem C9_reply_monotone_witness:
  "prediction (analyzePost asciiLower (ascii ''Hot take'') noOptions) ''P(reply)'' = Some 36
   \<and> (36 :: int) < 50
   \<and> \<not> testQuestionMark (ascii ''Hot take'')
   \<and> testQuestionMark (ascii '' Do you agree?'')
   \<and> prediction (analyzePost asciiLower (ascii ''Hot take'' @ ascii '' Do you agree?'') noOptions) ''P(reply)'' = Some 48
   \<and> \<not> isWordChar (hd (ascii '' Do you agree?''))
   \<and> (36 :: int) < 48
   \<and> (48 :: int) = 36 + newlyMatched replyBoosters (ascii ''Hot take'')
                           (ascii ''Hot take'' @ ascii '' Do you agree?'')"
proof -
  have 1: "prediction (analyzePost asciiLower (ascii ''Hot take'') noOptions) ''P(reply)'' = Some 36"
    by (simp add: prediction_reply replyBoosters_weight hot_take_tests)
  have 2: "(36 :: int) < 50" by simp
  note 3 = hot_take_tests(1)
  note 4 = hot_take_tests(8)
  have 5: "prediction (analyzePost asciiLower (ascii ''Hot take'' @ ascii '' Do you agree?'') noOptions) ''P(reply)'' = Some 48"
    by (simp add: prediction_reply replyBoosters_weight hot_take_tests)
  note 6 = hot_take_tests(12)
  from C9_reply_monotone [OF 1 2 3 4 5] 6
  have "(36 :: int) < 48" and "(48 :: int) = 36 + newlyMatched replyBoosters (ascii ''Hot take'')
                           (ascii ''Hot take'' @ ascii '' Do you agree?'')"
    by blast+
  with 1 2 3 4 5 6 show ?thesis by (intro conjI)
qed

text \<open>
  C10. For every text, \<open>scores.safety\<close> is 100 plus the weights of the negative triggers and
  spam indicators that fire. The triggers take off at most 47 and the spam indicators at
  most 26, so the score lies in [27,100], the clamp at 0 is never reached, and the
  aggregation reads the score itself, never the default that stands in for 0.
\<close>

theorem C10_safety:
  "safety (scores (analyzePost lc s opts)) =
     Some (100 + matchedWeight negativeTriggers s + matchedWeight (spamIndicators lc) s)
   \<and> - 47 \<le> matchedWeight negativeTriggers s \<and> matchedWeight negativeTriggers s \<le> 0
   \<and> - 26 \<le> matchedWeight (spamIndicators lc) s \<and> matchedWeight (spamIndicators lc) s \<le> 0
   \<and> 27 \<le> 100 + matchedWeight negativeTriggers s + matchedWeight (spamIndicators lc) s
   \<and> 100 + matchedWeight negativeTriggers s + matchedWeight (spamIndicators lc) s \<le> 100
   \<and> orDefault (safety (scores (analyzePost lc s opts))) 100 =
       100 + matchedWeight negativeTriggers s + matchedWeight (spamIndicators lc) s"
  using matchedWeight_negativeTriggers [of s] matchedWeight_spamIndicators [of lc s]
  by (simp add: scores_analyzePost safetyScore_def orDefault_def)

end
